theory Spec2Isabelle
  imports Main "HOL-Library.Word"
begin

unbundle bit_operations_syntax

section \<open>The viona virtqueue data plane\<close>

text \<open>
  A shallow embedding of the descriptor parser, the used-ring push paths, the RX copy
  routines, the TX path and the notify hook of \<^verbatim>\<open>usr/src/uts/i86pc/io/viona/viona.c\<close>.

  Conventions. Fixed-width C integers are words of their width. Host-virtual pointers and
  \<^verbatim>\<open>size_t\<close> byte counts are natural numbers; a NULL pointer is \<open>None\<close>. The three
  regions of a ring (descriptor table, available ring, used ring) are typed arrays behind the
  ring's host-context pointers; guest buffers and indirect tables live in a byte memory
  indexed by host-virtual address. Locks are not modelled: each function is one atomic step
  of the thread that runs it.
\<close>

subsection \<open>Constants of viona.c\<close>


definition VRING_DESC_F_NEXT :: "16 word" where "VRING_DESC_F_NEXT = 1"
definition VRING_DESC_F_WRITE :: "16 word" where "VRING_DESC_F_WRITE = 2"
definition VRING_DESC_F_INDIRECT :: "16 word" where "VRING_DESC_F_INDIRECT = 4"

definition VIRTIO_NET_HDR_F_NEEDS_CSUM :: "8 word" where "VIRTIO_NET_HDR_F_NEEDS_CSUM = 1"
definition VIRTIO_NET_HDR_GSO_TCPV4 :: "8 word" where "VIRTIO_NET_HDR_GSO_TCPV4 = 1"

definition VRING_AVAIL_F_NO_INTERRUPT :: "16 word" where "VRING_AVAIL_F_NO_INTERRUPT = 1"

definition VIRTIO_NET_F_CSUM :: "32 word" where "VIRTIO_NET_F_CSUM = 1"

definition VRS_RESET :: "16 word" where "VRS_RESET = 0"
definition VRS_SETUP :: "16 word" where "VRS_SETUP = 1"
definition VRS_INIT :: "16 word" where "VRS_INIT = 2"
definition VRS_RUN :: "16 word" where "VRS_RUN = 3"

definition VRSF_REQ_START :: "16 word" where "VRSF_REQ_START = 1"
definition VRSF_REQ_STOP :: "16 word" where "VRSF_REQ_STOP = 2"
definition VRSF_RENEW :: "16 word" where "VRSF_RENEW = 4"

subsection \<open>Data model\<close>

record virtio_desc =
  vd_addr :: "64 word"
  vd_len :: "32 word"
  vd_flags :: "16 word"
  vd_next :: "16 word"

record virtio_used =
  vu_idx :: "32 word"
  vu_tlen :: "32 word"

record used_elem =
  ue_id :: "16 word"
  ue_len :: "32 word"

record iovec =
  iov_base :: nat
  iov_len :: nat

record viona_ring_stats =
  rs_ndesc_too_high :: "64 word"
  rs_bad_idx :: "64 word"
  rs_indir_bad_len :: "64 word"
  rs_indir_bad_nest :: "64 word"
  rs_indir_bad_next :: "64 word"
  rs_no_space :: "64 word"
  rs_too_many_desc :: "64 word"
  rs_desc_bad_len :: "64 word"
  rs_bad_ring_addr :: "64 word"
  rs_fail_hcksum :: "64 word"
  rs_fail_hcksum6 :: "64 word"
  rs_fail_hcksum_proto :: "64 word"
  rs_bad_rx_frame :: "64 word"
  rs_rx_merge_overrun :: "64 word"
  rs_rx_merge_underrun :: "64 word"
  rs_rx_pad_short :: "64 word"
  rs_rx_mcast_check :: "64 word"
  rs_too_short :: "64 word"
  rs_tx_absent :: "64 word"
  rs_rx_hookdrop :: "64 word"
  rs_tx_hookdrop :: "64 word"

record viona_desb =
  d_ref :: "32 word"
  d_len :: "32 word"
  d_cookie :: "16 word"

text \<open>
  What a ring does to the world outside its own fields, in program order: the stores into the
  guest's used ring, the store fence between them, condition-variable broadcasts and
  interrupt deliveries.
\<close>

datatype vr_event =
    Used_elem_store nat "32 word" "32 word"
  | Membar_producer
  | Used_idx_store "16 word"
  | Cv_broadcast
  | Msi_inject "64 word" "64 word"
  | Pollwakeup

text \<open>
  \<^verbatim>\<open>viona_vring_t\<close>. \<open>vr_lease\<close> is the lease's translation
  \<^verbatim>\<open>vmm_drv_gpa2kva(lease, gpa, len)\<close>, a function of the hypervisor driver.
  \<open>vr_txdesb\<close> is \<open>None\<close> for a NULL pointer. \<open>vr_descr\<close>, \<open>vr_avail_*\<close> and
  \<open>vr_used_*\<close> are the guest memory behind the pointers of the same names.
\<close>

record viona_vring =
  vr_state :: "16 word"
  vr_state_flags :: "16 word"
  vr_xfer_outstanding :: "32 word"
  vr_lease :: "64 word \<Rightarrow> nat \<Rightarrow> nat option"
  vr_txdesb :: "(nat \<Rightarrow> viona_desb) option"
  vr_intr_enabled :: "32 word"
  vr_msi_addr :: "64 word"
  vr_msi_msg :: "64 word"
  vr_size :: "16 word"
  vr_mask :: "16 word"
  vr_cur_aidx :: "16 word"
  vr_descr :: "nat \<Rightarrow> virtio_desc"
  vr_avail_flags :: "16 word"
  vr_avail_idx :: "16 word"
  vr_avail_ring :: "nat \<Rightarrow> 16 word"
  vr_used_flags :: "16 word"
  vr_used_idx :: "16 word"
  vr_used_ring :: "nat \<Rightarrow> virtio_used"
  vr_stats :: viona_ring_stats
  vr_events :: "vr_event list"

type_synonym kmem = "nat \<Rightarrow> 8 word"

subsection \<open>Guest memory\<close>

fun rd_le :: "kmem \<Rightarrow> nat \<Rightarrow> nat \<Rightarrow> nat" where
  "rd_le m a 0 = 0"
| "rd_le m a (Suc n) = unat (m a) + 256 * rd_le m (Suc a) n"

text \<open>Entry \<open>i\<close> of the 16-byte-entry descriptor table at host address \<open>p\<close>
  (\<^verbatim>\<open>vindir[next]\<close>), little-endian as on x86.\<close>

definition read_desc :: "kmem \<Rightarrow> nat \<Rightarrow> nat \<Rightarrow> virtio_desc" where
  "read_desc m p i =
     (let a = p + 16 * i in
      \<lparr>vd_addr = of_nat (rd_le m a (Suc (Suc (Suc (Suc (Suc (Suc (Suc (Suc 0))))))))),
       vd_len = of_nat (rd_le m (a + 8) (Suc (Suc (Suc (Suc 0))))),
       vd_flags = of_nat (rd_le m (a + 12) (Suc (Suc 0))),
       vd_next = of_nat (rd_le m (a + 14) (Suc (Suc 0)))\<rparr>)"

definition viona_gpa2kva :: "viona_vring \<Rightarrow> 64 word \<Rightarrow> nat \<Rightarrow> nat option" where
  "viona_gpa2kva ring gpa len = vr_lease ring gpa len"

subsection \<open>The descriptor parser\<close>

text \<open>The statistic a failing parse increments before \<^verbatim>\<open>bail\<close>.\<close>

datatype pop_err =
    Bad_idx
  | Desc_bad_len
  | Bad_ring_addr
  | Indir_bad_len
  | Indir_bad_nest
  | Indir_bad_next
  | Too_many_desc

fun stat_incr :: "pop_err \<Rightarrow> viona_ring_stats \<Rightarrow> viona_ring_stats" where
  "stat_incr Bad_idx st = st\<lparr>rs_bad_idx := rs_bad_idx st + 1\<rparr>"
| "stat_incr Desc_bad_len st = st\<lparr>rs_desc_bad_len := rs_desc_bad_len st + 1\<rparr>"
| "stat_incr Bad_ring_addr st = st\<lparr>rs_bad_ring_addr := rs_bad_ring_addr st + 1\<rparr>"
| "stat_incr Indir_bad_len st = st\<lparr>rs_indir_bad_len := rs_indir_bad_len st + 1\<rparr>"
| "stat_incr Indir_bad_nest st = st\<lparr>rs_indir_bad_nest := rs_indir_bad_nest st + 1\<rparr>"
| "stat_incr Indir_bad_next st = st\<lparr>rs_indir_bad_next := rs_indir_bad_next st + 1\<rparr>"
| "stat_incr Too_many_desc st = st\<lparr>rs_too_many_desc := rs_too_many_desc st + 1\<rparr>"

text \<open>
  The inner \<^verbatim>\<open>for (;;)\<close> of \<^verbatim>\<open>vq_popchain\<close>, walking the indirect table at
  \<open>vindir\<close> from entry \<open>next\<close>. \<open>iov\<close> holds the segments stored so far, so the C
  index \<open>i\<close> is \<open>length iov\<close> and \<^verbatim>\<open>iov[i] = ...; i++\<close> appends. The result is the
  statistic of the failing check, or the segments when an entry without NEXT ends the walk.
\<close>

function indir_walk ::
  "kmem \<Rightarrow> viona_vring \<Rightarrow> nat \<Rightarrow> nat \<Rightarrow> nat \<Rightarrow> nat \<Rightarrow> iovec list \<Rightarrow> pop_err + iovec list"
where
  "indir_walk m ring vindir nindir niov next iov =
     (let vp = read_desc m vindir next in
      if vd_flags vp AND VRING_DESC_F_INDIRECT \<noteq> 0 then Inl Indir_bad_nest
      else if vd_len vp = 0 then Inl Desc_bad_len
      else case viona_gpa2kva ring (vd_addr vp) (unat (vd_len vp)) of
             None \<Rightarrow> Inl Bad_ring_addr
           | Some buf \<Rightarrow>
               let iov' = iov @ [\<lparr>iov_base = buf, iov_len = unat (vd_len vp)\<rparr>] in
               if vd_flags vp AND VRING_DESC_F_NEXT = 0 then Inr iov'
               else if length iov' \<ge> niov then Inl Too_many_desc
               else if unat (vd_next vp) \<ge> nindir then Inl Indir_bad_next
               else indir_walk m ring vindir nindir niov (unat (vd_next vp)) iov')"
  by pat_completeness auto
termination
  by (relation "measure (\<lambda>(m, ring, vindir, nindir, niov, next, iov). niov - length iov)") auto

declare indir_walk.simps [simp del]

lemma indir_walk_grows:
  "indir_walk m ring vindir nindir niov next iov = Inr iov' \<Longrightarrow> length iov < length iov'"
proof (induction m ring vindir nindir niov "next" iov rule: indir_walk.induct)
  case (1 m ring vindir nindir niov nxt iov)
  show ?case
    using "1.prems" "1.IH"
    by (subst (asm) indir_walk.simps)
       (fastforce simp: Let_def split: if_splits option.splits)
qed

text \<open>
  The outer \<^verbatim>\<open>for (i = 0; i < niov; next = vdir.vd_next)\<close>. Leaving the loop by its
  guard is the fall-through to \<^verbatim>\<open>loopy\<close>.
\<close>

function popchain_loop ::
  "kmem \<Rightarrow> viona_vring \<Rightarrow> nat \<Rightarrow> nat \<Rightarrow> iovec list \<Rightarrow> pop_err + iovec list"
where
  "popchain_loop m ring niov next iov =
     (if \<not> length iov < niov then Inl Too_many_desc
      else if next \<ge> unat (vr_size ring) then Inl Bad_idx
      else
        let vdir = vr_descr ring next in
        if vd_flags vdir AND VRING_DESC_F_INDIRECT = 0 then
          (if vd_len vdir = 0 then Inl Desc_bad_len
           else case viona_gpa2kva ring (vd_addr vdir) (unat (vd_len vdir)) of
                  None \<Rightarrow> Inl Bad_ring_addr
                | Some buf \<Rightarrow>
                    let iov' = iov @ [\<lparr>iov_base = buf, iov_len = unat (vd_len vdir)\<rparr>] in
                    if vd_flags vdir AND VRING_DESC_F_NEXT = 0 then Inr iov'
                    else popchain_loop m ring niov (unat (vd_next vdir)) iov')
        else
          (let nindir = unat (vd_len vdir) div 16 in
           if vd_len vdir AND 0xf \<noteq> 0 \<or> nindir = 0 then Inl Indir_bad_len
           else case viona_gpa2kva ring (vd_addr vdir) (unat (vd_len vdir)) of
                  None \<Rightarrow> Inl Bad_ring_addr
                | Some vindir \<Rightarrow>
                    (case indir_walk m ring vindir nindir niov 0 iov of
                       Inl e \<Rightarrow> Inl e
                     | Inr iov' \<Rightarrow>
                         if vd_flags vdir AND VRING_DESC_F_NEXT = 0 then Inr iov'
                         else popchain_loop m ring niov (unat (vd_next vdir)) iov')))"
  by pat_completeness auto
termination
  by (relation "measure (\<lambda>(m, ring, niov, next, iov). niov - length iov)")
     (auto dest: indir_walk_grows)

declare popchain_loop.simps [simp del]

text \<open>
  \<^verbatim>\<open>vq_popchain(ring, iov, niov, &cookie)\<close>: the return value, the segments written
  to \<open>iov\<close>, the cookie when it was stored, and the ring afterwards. On a return of 0 or -1
  no caller reads \<open>iov\<close>; the model returns it empty.
\<close>

definition note_ndesc :: "viona_vring \<Rightarrow> viona_vring" where
  "note_ndesc ring =
     (if vr_avail_idx ring - vr_cur_aidx ring > vr_size ring
      then ring\<lparr>vr_stats := (vr_stats ring)
             \<lparr>rs_ndesc_too_high := rs_ndesc_too_high (vr_stats ring) + 1\<rparr>\<rparr>
      else ring)"

definition vq_popchain ::
  "kmem \<Rightarrow> viona_vring \<Rightarrow> nat \<Rightarrow> int \<times> iovec list \<times> 16 word option \<times> viona_vring"
where
  "vq_popchain m ring niov =
     (let idx = vr_cur_aidx ring;
          ndesc = vr_avail_idx ring - idx in
      if ndesc = 0 then (0, [], None, ring)
      else
        let ring1 = note_ndesc ring;
            head = vr_avail_ring ring (unat (idx AND vr_mask ring)) in
        case popchain_loop m ring1 niov (unat head) [] of
          Inl e \<Rightarrow> (- 1, [], None, ring1\<lparr>vr_stats := stat_incr e (vr_stats ring1)\<rparr>)
        | Inr iov \<Rightarrow>
            (int (length iov), iov, Some head, ring1\<lparr>vr_cur_aidx := vr_cur_aidx ring1 + 1\<rparr>))"

subsection \<open>The used-ring push paths\<close>

text \<open>
  The C code keeps the used index in a \<^verbatim>\<open>uint_t\<close>, masks it with the 16-bit
  \<open>vr_mask\<close> to pick the slot and stores it back into a \<^verbatim>\<open>uint16_t\<close>; only its
  low 16 bits are ever observed, so the model computes with 16-bit words. \<open>num_bufs\<close> is
  the \<^verbatim>\<open>int\<close> argument, between 1 and \<open>VTNET_MAXSEGS\<close> at its only call site, and
  \<open>elem\<close> is the caller's array.
\<close>

definition used_store :: "viona_vring \<Rightarrow> nat \<Rightarrow> 32 word \<Rightarrow> 32 word \<Rightarrow> viona_vring" where
  "used_store ring slot idv lenv =
     ring\<lparr>vr_used_ring := (vr_used_ring ring)(slot := \<lparr>vu_idx = idv, vu_tlen = lenv\<rparr>),
          vr_events := vr_events ring @ [Used_elem_store slot idv lenv]\<rparr>"

definition used_idx_publish :: "viona_vring \<Rightarrow> 16 word \<Rightarrow> viona_vring" where
  "used_idx_publish ring uidx =
     ring\<lparr>vr_used_idx := uidx,
          vr_events := vr_events ring @ [Membar_producer, Used_idx_store uidx]\<rparr>"

definition used_slot :: "viona_vring \<Rightarrow> 16 word \<Rightarrow> nat" where
  "used_slot ring uidx = unat (uidx AND vr_mask ring)"

definition vq_pushchain :: "viona_vring \<Rightarrow> 32 word \<Rightarrow> 16 word \<Rightarrow> viona_vring" where
  "vq_pushchain ring len cookie =
     (let uidx = vr_used_idx ring;
          ring1 = used_store ring (used_slot ring uidx) (ucast cookie) len
      in used_idx_publish ring1 (uidx + 1))"

fun mrgrx_loop :: "16 word \<Rightarrow> (nat \<Rightarrow> used_elem) \<Rightarrow> nat \<Rightarrow> nat \<Rightarrow> viona_vring \<Rightarrow> viona_vring" where
  "mrgrx_loop uidx elem i 0 ring = ring"
| "mrgrx_loop uidx elem i (Suc k) ring =
     mrgrx_loop uidx elem (Suc i) k
       (used_store ring (used_slot ring (uidx + of_nat i))
          (ucast (ue_id (elem i))) (ue_len (elem i)))"

definition vq_pushchain_mrgrx :: "viona_vring \<Rightarrow> nat \<Rightarrow> (nat \<Rightarrow> used_elem) \<Rightarrow> viona_vring" where
  "vq_pushchain_mrgrx ring num_bufs elem =
     (let uidx = vr_used_idx ring in
      if num_bufs = 1 then
        used_idx_publish
          (used_store ring (used_slot ring uidx) (ucast (ue_id (elem 0))) (ue_len (elem 0)))
          (uidx + 1)
      else
        used_idx_publish (mrgrx_loop uidx elem 0 num_bufs ring) (uidx + of_nat num_bufs))"

subsection \<open>The link and the notify hook\<close>

text \<open>
  Error returns. \<open>E_OK\<close> is \<^verbatim>\<open>return (0)\<close>; the others are the errno constants the
  code names, kept apart as constructors.
\<close>

datatype errno = E_OK | EINVAL | EBUSY | ENOSPC | EMSGSIZE | EOVERFLOW | ENOMEM

text \<open>
  Modelled from the spec: \<^verbatim>\<open>VIONA_VQ_MAX\<close>, declared in \<^verbatim>\<open>sys/viona_io.h\<close>, which
  is not among the sources. The link aggregates two rings (RX, TX), and interrupt polling
  reports a per-ring status of two entries.
\<close>

definition VIONA_VQ_MAX :: nat where "VIONA_VQ_MAX = 2"

text \<open>
  \<^verbatim>\<open>VNETHOOK_INTERESTED_IN\<close> and \<^verbatim>\<open>VNETHOOK_INTERESTED_OUT\<close> read the
  \<^verbatim>\<open>he_interested\<close> members of the two hook events of the link's net instance.
\<close>

record viona_neti =
  vnh_event_in_interested :: bool
  vnh_event_out_interested :: bool

record viona_link =
  l_vrings :: "nat \<Rightarrow> viona_vring"
  l_features :: "32 word"
  l_cap_csum :: "32 word"
  l_notify_ioport :: "64 word"
  l_neti :: viona_neti

definition cv_broadcast :: "viona_vring \<Rightarrow> viona_vring" where
  "cv_broadcast ring = ring\<lparr>vr_events := vr_events ring @ [Cv_broadcast]\<rparr>"

text \<open>\<^verbatim>\<open>viona_ioc_ring_kick(link, idx)\<close>; the \<^verbatim>\<open>switch\<close> falls through from SETUP and
  INIT into RUN.\<close>

definition viona_ioc_ring_kick :: "viona_link \<Rightarrow> 32 word \<Rightarrow> errno \<times> viona_link" where
  "viona_ioc_ring_kick link idx =
     (if unat idx \<ge> VIONA_VQ_MAX then (EINVAL, link)
      else
        let ring = l_vrings link (unat idx) in
        if vr_state ring = VRS_SETUP \<or> vr_state ring = VRS_INIT then
          (E_OK, link\<lparr>l_vrings := (l_vrings link)
             (unat idx := cv_broadcast
                (ring\<lparr>vr_state_flags := vr_state_flags ring OR VRSF_REQ_START\<rparr>))\<rparr>)
        else if vr_state ring = VRS_RUN then
          (E_OK, link\<lparr>l_vrings := (l_vrings link)(unat idx := cv_broadcast ring)\<rparr>)
        else (EBUSY, link))"

text \<open>\<^verbatim>\<open>viona_notify_wcb(arg, ioport, sz, val)\<close> with \<open>arg\<close> the link;
  \<^verbatim>\<open>vq = (uint16_t)val\<close>.\<close>

definition viona_notify_wcb ::
  "viona_link \<Rightarrow> 64 word \<Rightarrow> 32 word \<Rightarrow> 64 word \<Rightarrow> errno \<times> viona_link" where
  "viona_notify_wcb link ioport sz val =
     (let vq = (ucast val :: 16 word) in
      if ioport \<noteq> l_notify_ioport link \<or> sz \<noteq> 2 then (EINVAL, link)
      else viona_ioc_ring_kick link (ucast vq))"

subsection \<open>Byte stores into guest memory\<close>

definition bzero :: "kmem \<Rightarrow> nat \<Rightarrow> nat \<Rightarrow> kmem" where
  "bzero m p n = (\<lambda>a. if p \<le> a \<and> a < p + n then 0 else m a)"

definition bcopy :: "8 word list \<Rightarrow> nat \<Rightarrow> kmem \<Rightarrow> kmem" where
  "bcopy src dst m = (\<lambda>a. if dst \<le> a \<and> a < dst + length src then src ! (a - dst) else m a)"

definition rd16 :: "kmem \<Rightarrow> nat \<Rightarrow> 16 word" where
  "rd16 m p = of_nat (rd_le m p (Suc (Suc 0)))"

definition wr16 :: "kmem \<Rightarrow> nat \<Rightarrow> 16 word \<Rightarrow> kmem" where
  "wr16 m p v = m(p := ucast v, Suc p := ucast (drop_bit 8 v))"

subsection \<open>Frames\<close>




subsection \<open>The frame-copy helper\<close>





subsection \<open>Interrupt delivery\<close>

text \<open>\<^verbatim>\<open>viona_intr_ring\<close>: an MSI when an address is configured, otherwise the edge
  on the 0-to-1 change of \<open>vr_intr_enabled\<close>.\<close>

definition viona_intr_ring :: "viona_vring \<Rightarrow> viona_vring" where
  "viona_intr_ring ring =
     (if vr_msi_addr ring \<noteq> 0
      then ring\<lparr>vr_events := vr_events ring @ [Msi_inject (vr_msi_addr ring) (vr_msi_msg ring)]\<rparr>
      else if vr_intr_enabled ring = 0
      then ring\<lparr>vr_intr_enabled := 1, vr_events := vr_events ring @ [Pollwakeup]\<rparr>
      else ring)"

subsection \<open>Plain RX\<close>


text \<open>Offsets of the members of \<^verbatim>\<open>struct virtio_net_hdr\<close> and
  \<^verbatim>\<open>struct virtio_net_mrgrxhdr\<close> (packed).\<close>

definition OFF_vrh_flags :: nat where "OFF_vrh_flags = 0"
definition OFF_vrh_gso_type :: nat where "OFF_vrh_gso_type = 1"
definition OFF_vrh_gso_size :: nat where "OFF_vrh_gso_size = 4"
definition OFF_vrh_csum_start :: nat where "OFF_vrh_csum_start = 6"
definition OFF_vrh_csum_offset :: nat where "OFF_vrh_csum_offset = 8"

text \<open>The cookie local of a caller: stored by \<^verbatim>\<open>vq_popchain\<close> whenever it returns a
  positive count, and read only then.\<close>

definition cookie_of :: "16 word option \<Rightarrow> 16 word" where
  "cookie_of c = (case c of Some v \<Rightarrow> v | None \<Rightarrow> 0)"




definition stat_bad_rx_frame :: "viona_vring \<Rightarrow> viona_vring" where
  "stat_bad_rx_frame ring =
     ring\<lparr>vr_stats := (vr_stats ring)\<lparr>rs_bad_rx_frame := rs_bad_rx_frame (vr_stats ring) + 1\<rparr>\<rparr>"




subsection \<open>Mergeable RX\<close>











subsection \<open>The RX batch\<close>


text \<open>
  What \<^verbatim>\<open>hook_run\<close> did with the frame behind \<^verbatim>\<open>*mpp\<close>: returned 0, with the frame
  it left there, or returned an error, with the frame or \<open>None\<close> when it freed the frame
  and stored NULL.
\<close>

datatype 'f hook_res = Hook_accept 'f | Hook_reject "'f option"

definition stat_hookdrop :: "bool \<Rightarrow> viona_vring \<Rightarrow> viona_vring" where
  "stat_hookdrop out ring =
     (if out
      then ring\<lparr>vr_stats := (vr_stats ring)
             \<lparr>rs_tx_hookdrop := rs_tx_hookdrop (vr_stats ring) + 1\<rparr>\<rparr>
      else ring\<lparr>vr_stats := (vr_stats ring)
             \<lparr>rs_rx_hookdrop := rs_rx_hookdrop (vr_stats ring) + 1\<rparr>\<rparr>)"

text \<open>\<^verbatim>\<open>viona_hook(link, ring, mpp, out)\<close> with the hook framework's \<^verbatim>\<open>hook_run\<close>
  as a parameter.\<close>

definition viona_hook ::
  "('f \<Rightarrow> 'f hook_res) \<Rightarrow> viona_link \<Rightarrow> viona_vring \<Rightarrow> 'f \<Rightarrow> bool \<Rightarrow> 'f hook_res \<times> viona_vring"
where
  "viona_hook hook_run link ring mp out =
     (if \<not> (if out then vnh_event_out_interested (l_neti link)
             else vnh_event_in_interested (l_neti link))
      then (Hook_accept mp, ring)
      else case hook_run mp of
             Hook_accept mp' \<Rightarrow> (Hook_accept mp', ring)
           | Hook_reject mpo \<Rightarrow> (Hook_reject mpo, stat_hookdrop out ring))"


definition stat_rx_pad_short :: "viona_vring \<Rightarrow> viona_vring" where
  "stat_rx_pad_short ring =
     ring\<lparr>vr_stats := (vr_stats ring)\<lparr>rs_rx_pad_short := rs_rx_pad_short (vr_stats ring) + 1\<rparr>\<rparr>"





subsection \<open>TX: reclamation descriptors and completion\<close>

text \<open>\<^verbatim>\<open>viona_tx_done(ring, len, cookie)\<close>.\<close>

definition viona_tx_done :: "viona_vring \<Rightarrow> 32 word \<Rightarrow> 16 word \<Rightarrow> viona_vring" where
  "viona_tx_done ring len cookie =
     (let ring1 = vq_pushchain ring len cookie in
      if vr_avail_flags ring1 AND VRING_AVAIL_F_NO_INTERRUPT = 0
      then viona_intr_ring ring1 else ring1)"

definition desb_upd :: "viona_vring \<Rightarrow> nat \<Rightarrow> (viona_desb \<Rightarrow> viona_desb) \<Rightarrow> viona_vring" where
  "desb_upd ring i f =
     (case vr_txdesb ring of
        None \<Rightarrow> ring
      | Some desb \<Rightarrow> ring\<lparr>vr_txdesb := Some (desb(i := f (desb i)))\<rparr>)"

definition desb_get :: "viona_vring \<Rightarrow> nat \<Rightarrow> viona_desb" where
  "desb_get ring i =
     (case vr_txdesb ring of
        None \<Rightarrow> \<lparr>d_ref = 0, d_len = 0, d_cookie = 0\<rparr>
      | Some desb \<Rightarrow> desb i)"

text \<open>
  \<^verbatim>\<open>viona_desb_release(dp)\<close> for \<open>dp = &ring->vr_txdesb[i]\<close>, the free routine of
  every block allocated with \<^verbatim>\<open>desballoc(..., &dp->d_frtn)\<close>.
\<close>

definition viona_desb_release :: "nat \<Rightarrow> viona_vring \<Rightarrow> viona_vring" where
  "viona_desb_release i ring =
     (let dp = desb_get ring i;
          ref = d_ref dp - 1 in
      if ref > 1 then desb_upd ring i (\<lambda>d. d\<lparr>d_ref := ref\<rparr>)
      else
        let ring1 = desb_upd ring i (\<lambda>d. \<lparr>d_ref = 0, d_len = 0, d_cookie = 0\<rparr>);
            ring2 = viona_tx_done ring1 (d_len dp) (d_cookie dp);
            ring3 = ring2\<lparr>vr_xfer_outstanding := vr_xfer_outstanding ring2 - 1\<rparr>
        in if vr_xfer_outstanding ring3 = 0 then cv_broadcast ring3 else ring3)"

subsection \<open>TX: frames\<close>

text \<open>
  Modelled from the spec: \<^verbatim>\<open>VIONA_MAX_HDRS_LEN\<close> is
  \<^verbatim>\<open>sizeof (struct ether_vlan_header) + IP_MAX_HDR_LENGTH + TCP_MAX_HDR_LENGTH\<close>, whose
  three terms come from headers that are not among the sources; the copied headers are up to
  138 bytes (Ethernet with VLAN, the largest IPv4 header, the largest TCP header).
\<close>

definition VIONA_MAX_HDRS_LEN :: nat where "VIONA_MAX_HDRS_LEN = 138"

text \<open>
  A block of a TX frame: its bytes, and the reclamation descriptor whose \<^verbatim>\<open>d_frtn\<close>
  frees it when it came from \<^verbatim>\<open>desballoc\<close>. The first block is apart: \<open>tf_buf\<close> is
  its whole buffer of \<open>VIONA_MAX_HDRS_LEN\<close> bytes, of which the first \<open>tf_hlen\<close>
  (\<^verbatim>\<open>MBLKL\<close>) are the copied headers.
\<close>

record tx_blk =
  tb_desb :: "nat option"
  tb_data :: "8 word list"

datatype tx_offload =
    Off_none
  | Off_partial "32 word" "32 word" "32 word" bool
  | Off_full bool

record tx_frame =
  tf_desb :: "nat option"
  tf_buf :: "8 word list"
  tf_hlen :: nat
  tf_cont :: "tx_blk list"
  tf_lso_mss :: "16 word option"
  tf_offload :: tx_offload

definition frame_desbs :: "tx_frame \<Rightarrow> nat list" where
  "frame_desbs f =
     (case tf_desb f of None \<Rightarrow> [] | Some i \<Rightarrow> [i]) @
     concat (map (\<lambda>b. case tb_desb b of None \<Rightarrow> [] | Some i \<Rightarrow> [i]) (tf_cont f))"

text \<open>\<^verbatim>\<open>freemsgchain\<close> of a frame: every \<^verbatim>\<open>desballoc\<close> block runs its free
  routine.\<close>

definition tx_free :: "tx_frame \<Rightarrow> viona_vring \<Rightarrow> viona_vring" where
  "tx_free f ring = fold viona_desb_release (frame_desbs f) ring"

subsection \<open>TX: checksum offload\<close>

text \<open>
  Modelled from the spec: the Ethernet, IPv4, IPv6 and TCP layouts and protocol numbers of
  \<^verbatim>\<open>sys/ethernet.h\<close>, \<^verbatim>\<open>inet/ip.h\<close> and \<^verbatim>\<open>inet/tcp.h\<close>, and the
  \<^verbatim>\<open>HCKSUM_INET_*\<close> capability bits of MAC, none of which are among the sources. The
  spec names them only as the L2 to L4 fields read from the copied header region and as the
  host's checksum offload; the values are those of the protocols and, for the capability bits,
  those of \<^verbatim>\<open>sys/mac.h\<close> (\<open>0x02\<close>, \<open>0x04\<close>, \<open>0x08\<close>; \<open>0x01\<close> is
  \<^verbatim>\<open>HCKSUM_ENABLE\<close>).
\<close>

definition sizeof_ether_header :: nat where "sizeof_ether_header = 14"
definition sizeof_ether_vlan_header :: nat where "sizeof_ether_vlan_header = 18"
definition ETHERTYPE_VLAN :: "16 word" where "ETHERTYPE_VLAN = 0x8100"
definition ETHERTYPE_IP :: "16 word" where "ETHERTYPE_IP = 0x0800"
definition ETHERTYPE_IPV6 :: "16 word" where "ETHERTYPE_IPV6 = 0x86dd"
definition IPPROTO_NONE :: "8 word" where "IPPROTO_NONE = 59"
definition IPPROTO_TCP :: "8 word" where "IPPROTO_TCP = 6"
definition IPPROTO_UDP :: "8 word" where "IPPROTO_UDP = 17"
definition IP_TCP_CSUM_COMP :: "32 word" where "IP_TCP_CSUM_COMP = 0x0600"
definition TCP_CHECKSUM_OFFSET :: nat where "TCP_CHECKSUM_OFFSET = 16"
definition HCKSUM_INET_PARTIAL :: "32 word" where "HCKSUM_INET_PARTIAL = 0x02"
definition HCKSUM_INET_FULL_V4 :: "32 word" where "HCKSUM_INET_FULL_V4 = 0x04"
definition HCKSUM_INET_FULL_V6 :: "32 word" where "HCKSUM_INET_FULL_V6 = 0x08"

text \<open>Reads from and 16-bit stores into the buffer of the first block; a byte beyond the
  buffer reads as 0 and a store beyond it is lost.\<close>

definition buf_u8 :: "8 word list \<Rightarrow> nat \<Rightarrow> 8 word" where
  "buf_u8 b i = (if i < length b then b ! i else 0)"

definition buf_be16 :: "8 word list \<Rightarrow> nat \<Rightarrow> 16 word" where
  "buf_be16 b i = push_bit 8 (ucast (buf_u8 b i)) OR ucast (buf_u8 b (i + 1))"

definition buf_le32 :: "8 word list \<Rightarrow> nat \<Rightarrow> 32 word" where
  "buf_le32 b i =
     ucast (buf_u8 b i) OR push_bit 8 (ucast (buf_u8 b (i + 1))) OR
     push_bit 16 (ucast (buf_u8 b (i + 2))) OR push_bit 24 (ucast (buf_u8 b (i + 3)))"

definition buf_st16 :: "8 word list \<Rightarrow> nat \<Rightarrow> 16 word \<Rightarrow> 8 word list" where
  "buf_st16 b i v = (b[i := ucast v])[i + 1 := ucast (drop_bit 8 v)]"

text \<open>The fields of the guest's \<^verbatim>\<open>struct virtio_net_hdr\<close> at \<open>hdr\<close>.\<close>

record virtio_net_hdr =
  vrh_flags :: "8 word"
  vrh_gso_type :: "8 word"
  vrh_gso_size :: "16 word"
  vrh_csum_start :: "16 word"
  vrh_csum_offset :: "16 word"

definition read_net_hdr :: "kmem \<Rightarrow> nat \<Rightarrow> virtio_net_hdr" where
  "read_net_hdr m hdr =
     \<lparr>vrh_flags = m (hdr + OFF_vrh_flags), vrh_gso_type = m (hdr + OFF_vrh_gso_type),
      vrh_gso_size = rd16 m (hdr + OFF_vrh_gso_size),
      vrh_csum_start = rd16 m (hdr + OFF_vrh_csum_start),
      vrh_csum_offset = rd16 m (hdr + OFF_vrh_csum_offset)\<rparr>"

definition stat_fail_hcksum :: "viona_vring \<Rightarrow> viona_vring" where
  "stat_fail_hcksum ring =
     ring\<lparr>vr_stats := (vr_stats ring)\<lparr>rs_fail_hcksum := rs_fail_hcksum (vr_stats ring) + 1\<rparr>\<rparr>"

definition stat_fail_hcksum6 :: "viona_vring \<Rightarrow> viona_vring" where
  "stat_fail_hcksum6 ring =
     ring\<lparr>vr_stats := (vr_stats ring)\<lparr>rs_fail_hcksum6 := rs_fail_hcksum6 (vr_stats ring) + 1\<rparr>\<rparr>"

definition stat_fail_hcksum_proto :: "viona_vring \<Rightarrow> viona_vring" where
  "stat_fail_hcksum_proto ring =
     ring\<lparr>vr_stats := (vr_stats ring)
       \<lparr>rs_fail_hcksum_proto := rs_fail_hcksum_proto (vr_stats ring) + 1\<rparr>\<rparr>"

text \<open>The bounds test at the head of \<^verbatim>\<open>viona_tx_csum\<close>, with
  \<open>eth_len = sizeof (struct ether_header)\<close> as it is at that point.\<close>

definition csum_out_of_bounds :: "nat \<Rightarrow> nat \<Rightarrow> nat \<Rightarrow> nat \<Rightarrow> bool" where
  "csum_out_of_bounds csum_start csum_stuff len mblkl \<longleftrightarrow>
     csum_start \<ge> len \<or> csum_start < sizeof_ether_header \<or> csum_stuff \<ge> len \<or>
     csum_stuff + 2 > mblkl"

text \<open>
  What \<^verbatim>\<open>viona_tx_csum\<close> leaves behind: its return value, the ring (statistics), the
  frame (buffer of the first block, LSO and checksum requests), and the offsets, from
  \<^verbatim>\<open>b_rptr\<close> of the first block, of the 16-bit stores it made.
\<close>

record csum_res =
  cr_ok :: bool
  cr_ring :: viona_vring
  cr_frame :: tx_frame
  cr_stores :: "nat list"

text \<open>\<^verbatim>\<open>viona_tx_csum(ring, hdr, mp, len)\<close>; \<open>link\<close> is \<^verbatim>\<open>ring->vr_link\<close>.\<close>

definition viona_tx_csum ::
  "viona_link \<Rightarrow> viona_vring \<Rightarrow> virtio_net_hdr \<Rightarrow> tx_frame \<Rightarrow> 32 word \<Rightarrow> csum_res" where
  "viona_tx_csum link ring hdr mp len =
     (let csum_start = unat (vrh_csum_start hdr);
          csum_stuff = unat (vrh_csum_offset hdr) + csum_start
      in
      if csum_out_of_bounds csum_start csum_stuff (unat len) (tf_hlen mp) then
        \<lparr>cr_ok = False, cr_ring = stat_fail_hcksum ring, cr_frame = mp, cr_stores = []\<rparr>
      else
        let b = tf_buf mp;
            ftype0 = buf_be16 b 12;
            vlan = (ftype0 = ETHERTYPE_VLAN);
            eth_len = (if vlan then sizeof_ether_vlan_header else sizeof_ether_header);
            ftype = (if vlan then buf_be16 b 16 else ftype0);
            ipproto = (if ftype = ETHERTYPE_IP then buf_u8 b (eth_len + 9)
                       else if ftype = ETHERTYPE_IPV6 then buf_u8 b (eth_len + 6)
                       else IPPROTO_NONE);
            partial = (l_cap_csum link AND HCKSUM_INET_PARTIAL \<noteq> 0);
            lso = (partial \<and> vrh_gso_type hdr AND VIRTIO_NET_HDR_GSO_TCPV4 \<noteq> 0 \<and>
                   ftype = ETHERTYPE_IP);
            iph_len = unat (push_bit 2 (buf_u8 b eth_len AND 0xf));
            cksump = eth_len + iph_len + TCP_CHECKSUM_OFFSET;
            src = buf_le32 b (eth_len + 12);
            dst = buf_le32 b (eth_len + 16);
            cksum0 = IP_TCP_CSUM_COMP + (drop_bit 16 dst + (dst AND 0xffff) +
                       drop_bit 16 src + (src AND 0xffff));
            cksum1 = (cksum0 AND 0xffff) + drop_bit 16 cksum0;
            cksum2 = (ucast ((cksum1 AND 0xffff) + drop_bit 16 cksum1) :: 16 word);
            b1 = (if lso then buf_st16 (buf_st16 b cksump cksum2) (eth_len + 10) 0 else b);
            st1 = (if lso then [cksump, eth_len + 10] else []);
            mp1 = mp\<lparr>tf_buf := b1,
                     tf_lso_mss := (if lso then Some (vrh_gso_size hdr) else tf_lso_mss mp)\<rparr>;
            l4 = (ipproto = IPPROTO_TCP \<or> ipproto = IPPROTO_UDP)
        in
        if partial \<and> l4 then
          \<lparr>cr_ok = True, cr_ring = ring,
           cr_frame = mp1\<lparr>tf_offload := Off_partial (of_nat csum_start - of_nat eth_len)
                                (of_nat csum_stuff - of_nat eth_len) (len - of_nat eth_len) lso\<rparr>,
           cr_stores = st1\<rparr>
        else if ftype = ETHERTYPE_IP then
          (if l_cap_csum link AND HCKSUM_INET_FULL_V4 \<noteq> 0 \<and> l4 then
             \<lparr>cr_ok = True, cr_ring = ring,
              cr_frame = mp1\<lparr>tf_buf := buf_st16 b1 csum_stuff 0, tf_offload := Off_full lso\<rparr>,
              cr_stores = st1 @ [csum_stuff]\<rparr>
           else
             \<lparr>cr_ok = False, cr_ring = stat_fail_hcksum ring, cr_frame = mp1, cr_stores = st1\<rparr>)
        else if ftype = ETHERTYPE_IPV6 then
          (if l_cap_csum link AND HCKSUM_INET_FULL_V6 \<noteq> 0 \<and> l4 then
             \<lparr>cr_ok = True, cr_ring = ring,
              cr_frame = mp1\<lparr>tf_buf := buf_st16 b1 csum_stuff 0, tf_offload := Off_full lso\<rparr>,
              cr_stores = st1 @ [csum_stuff]\<rparr>
           else
             \<lparr>cr_ok = False, cr_ring = stat_fail_hcksum6 ring, cr_frame = mp1, cr_stores = st1\<rparr>)
        else
          \<lparr>cr_ok = False, cr_ring = stat_fail_hcksum_proto ring, cr_frame = mp1, cr_stores = st1\<rparr>)"

subsection \<open>TX: one chain\<close>

datatype tx_drop = Drop_short_hdr | Drop_slot_busy | Drop_alloc | Drop_hook | Drop_csum

text \<open>
  How \<^verbatim>\<open>viona_tx\<close> ends: nothing available, a parser error, the frame dropped (at
  \<^verbatim>\<open>drop_fail\<close> or \<^verbatim>\<open>drop_hook\<close>, with the reason), the frame handed to
  \<^verbatim>\<open>mac_tx\<close>, or the \<^verbatim>\<open>VERIFY(dp->d_ref == 2)\<close> failing.
\<close>

datatype tx_outcome = Tx_absent | Tx_pop_error | Tx_dropped tx_drop | Tx_sent tx_frame | Tx_panic

text \<open>
  What \<^verbatim>\<open>viona_tx\<close> takes from outside viona: whether the allocation of the first
  block succeeds (\<^verbatim>\<open>desballoc\<close> over \<^verbatim>\<open>d_headers\<close>, or \<^verbatim>\<open>allocb\<close>), what its
  buffer of \<open>VIONA_MAX_HDRS_LEN\<close> bytes holds when handed out, whether the allocation for
  \<^verbatim>\<open>iov[i]\<close> succeeds, and the out-bound hook. Of the hook, run on the frame behind
  \<^verbatim>\<open>mp_head\<close>: its return with what it leaves behind \<^verbatim>\<open>*mpp\<close> (\<open>te_hook_out\<close>),
  the message behind \<^verbatim>\<open>mp_head\<close> once it has run, since it may change the blocks in
  place (\<open>te_hook_head\<close>), and the reclamation descriptors of the \<^verbatim>\<open>desballoc\<close> blocks
  it freed, each of which ran its free routine (\<open>te_hook_freed\<close>).
\<close>

record tx_env =
  te_head_alloc :: bool
  te_headbuf :: "8 word list"
  te_seg_alloc :: "nat \<Rightarrow> bool"
  te_hook_out :: "tx_frame \<Rightarrow> tx_frame hook_res"
  te_hook_head :: "tx_frame \<Rightarrow> tx_frame"
  te_hook_freed :: "tx_frame \<Rightarrow> nat list"

definition stat_tx_absent :: "viona_vring \<Rightarrow> viona_vring" where
  "stat_tx_absent ring =
     ring\<lparr>vr_stats := (vr_stats ring)\<lparr>rs_tx_absent := rs_tx_absent (vr_stats ring) + 1\<rparr>\<rparr>"

definition desb_ref_incr :: "nat option \<Rightarrow> viona_vring \<Rightarrow> viona_vring" where
  "desb_ref_incr dp ring =
     (case dp of None \<Rightarrow> ring | Some d \<Rightarrow> desb_upd ring d (\<lambda>x. x\<lparr>d_ref := d_ref x + 1\<rparr>))"

text \<open>The bytes of guest memory from \<open>base\<close>, \<open>n\<close> of them.\<close>

definition mem_bytes :: "kmem \<Rightarrow> nat \<Rightarrow> nat \<Rightarrow> 8 word list" where
  "mem_bytes m base n = map m [base..<base + n]"

text \<open>
  The first loop of \<^verbatim>\<open>viona_tx\<close>, over \<^verbatim>\<open>iov[1..n)\<close>: the bytes copied into the first
  block, the segments left for the second loop, and \<open>base_off\<close> into the first of them.
\<close>

fun tx_copy_hdrs ::
  "kmem \<Rightarrow> iovec list \<Rightarrow> nat \<Rightarrow> 8 word list \<Rightarrow> 8 word list \<times> iovec list \<times> nat" where
  "tx_copy_hdrs m [] min_copy hb = (hb, [], 0)"
| "tx_copy_hdrs m (v # vs) min_copy hb =
     (let to_copy = min min_copy (iov_len v);
          hb' = hb @ mem_bytes m (iov_base v) to_copy
      in if min_copy - to_copy = 0 then
           (if iov_len v = to_copy then (hb', vs, 0) else (hb', v # vs, to_copy))
         else tx_copy_hdrs m vs (min_copy - to_copy) hb')"

text \<open>
  The second loop, from \<^verbatim>\<open>iov[i]\<close> on: a block per remaining segment, wrapped around
  guest memory with a reference on \<open>dp\<close>, or allocated and copied. The result is false when
  an allocation failed.
\<close>

fun tx_wrap ::
  "tx_env \<Rightarrow> kmem \<Rightarrow> nat option \<Rightarrow> nat \<Rightarrow> iovec list \<Rightarrow> nat \<Rightarrow> tx_blk list \<Rightarrow> viona_vring \<Rightarrow>
   32 word \<Rightarrow> bool \<times> tx_blk list \<times> viona_vring \<times> 32 word" where
  "tx_wrap env m dp i [] base_off acc ring len = (True, acc, ring, len)"
| "tx_wrap env m dp i (v # vs) base_off acc ring len =
     (let base = iov_base v + base_off;
          chunk = iov_len v - base_off
      in if \<not> te_seg_alloc env i then (False, acc, ring, len)
         else tx_wrap env m dp (i + 1) vs 0
                (acc @ [\<lparr>tb_desb = dp, tb_data = mem_bytes m base chunk\<rparr>])
                (desb_ref_incr dp ring) (len + of_nat chunk))"

text \<open>\<^verbatim>\<open>drop_hook\<close>: the total of the guest's segments, the reset of \<open>dp\<close>, the
  completion.\<close>

definition tx_drop_hook ::
  "viona_vring \<Rightarrow> iovec list \<Rightarrow> 16 word \<Rightarrow> nat option \<Rightarrow> tx_drop \<Rightarrow> viona_vring \<times> tx_outcome"
where
  "tx_drop_hook ring iov cookie dp why =
     (let len = (of_nat (sum_list (map iov_len iov)) :: 32 word) in
      case dp of
        None \<Rightarrow> (viona_tx_done ring len cookie, Tx_dropped why)
      | Some d \<Rightarrow>
          if d_ref (desb_get ring d) \<noteq> 2 then (ring, Tx_panic)
          else (viona_tx_done (desb_upd ring d (\<lambda>x. \<lparr>d_ref = 0, d_len = 0, d_cookie = 0\<rparr>))
                  len cookie,
                Tx_dropped why))"

text \<open>\<^verbatim>\<open>drop_fail\<close>: the extra hold on \<open>dp\<close>, \<^verbatim>\<open>freemsgchain(mp_head)\<close>, then
  \<^verbatim>\<open>drop_hook\<close>.\<close>

definition tx_drop_fail ::
  "viona_vring \<Rightarrow> tx_frame option \<Rightarrow> iovec list \<Rightarrow> 16 word \<Rightarrow> nat option \<Rightarrow> tx_drop \<Rightarrow>
   viona_vring \<times> tx_outcome" where
  "tx_drop_fail ring mp_head iov cookie dp why =
     (let ring1 = desb_ref_incr dp ring;
          ring2 = (case mp_head of None \<Rightarrow> ring1 | Some f \<Rightarrow> tx_free f ring1)
      in tx_drop_hook ring2 iov cookie dp why)"

text \<open>The tail of \<^verbatim>\<open>viona_tx\<close>: the deferred or immediate completion, then
  \<^verbatim>\<open>mac_tx\<close>.\<close>

definition tx_send ::
  "viona_vring \<Rightarrow> tx_frame \<Rightarrow> nat option \<Rightarrow> 32 word \<Rightarrow> 16 word \<Rightarrow> viona_vring \<times> tx_outcome"
where
  "tx_send ring mp_head dp len cookie =
     (case dp of
        Some d \<Rightarrow>
          (let ring1 = desb_upd ring d (\<lambda>x. x\<lparr>d_len := len\<rparr>) in
           (ring1\<lparr>vr_xfer_outstanding := vr_xfer_outstanding ring1 + 1\<rparr>, Tx_sent mp_head))
      | None \<Rightarrow> (viona_tx_done ring len cookie, Tx_sent mp_head))"

text \<open>The checksum request and what follows it.\<close>

definition tx_finish ::
  "viona_link \<Rightarrow> kmem \<Rightarrow> viona_vring \<Rightarrow> tx_frame \<Rightarrow> nat option \<Rightarrow> iovec list \<Rightarrow> 16 word \<Rightarrow>
   32 word \<Rightarrow> viona_vring \<times> tx_outcome" where
  "tx_finish link m ring mp_head dp iov cookie len =
     (let hdr = read_net_hdr m (iov_base (iov ! 0)) in
      if l_features link AND VIRTIO_NET_F_CSUM \<noteq> 0 \<and>
         vrh_flags hdr AND VIRTIO_NET_HDR_F_NEEDS_CSUM \<noteq> 0
      then
        (let r = viona_tx_csum link ring hdr mp_head (len - of_nat (iov_len (iov ! 0))) in
         if \<not> cr_ok r then tx_drop_fail (cr_ring r) (Some (cr_frame r)) iov cookie dp Drop_csum
         else tx_send (cr_ring r) (cr_frame r) dp len cookie)
      else tx_send ring mp_head dp len cookie)"

text \<open>
  The out-bound hook and what follows it. The hook's frees happen inside \<^verbatim>\<open>hook_run\<close>;
  they touch no statistic, so their order with the statistic of \<^verbatim>\<open>viona_hook\<close> does not
  show. After a rejection the code frees what is behind \<^verbatim>\<open>*mpp\<close>; after an acceptance
  it goes on with \<^verbatim>\<open>mp_head\<close>, whatever the hook stored.
\<close>

definition tx_hook ::
  "tx_env \<Rightarrow> viona_link \<Rightarrow> kmem \<Rightarrow> viona_vring \<Rightarrow> tx_frame \<Rightarrow> nat option \<Rightarrow> iovec list \<Rightarrow>
   16 word \<Rightarrow> 32 word \<Rightarrow> viona_vring \<times> tx_outcome" where
  "tx_hook env link m ring mp_head dp iov cookie len =
     (if vnh_event_out_interested (l_neti link) then
        (case viona_hook (te_hook_out env) link (desb_ref_incr dp ring) mp_head True of
           (res, ring1) \<Rightarrow>
             let ring2 = fold viona_desb_release (te_hook_freed env mp_head) ring1 in
             case res of
               Hook_reject left \<Rightarrow>
                 (let ring3 = (case left of None \<Rightarrow> ring2 | Some f \<Rightarrow> tx_free f ring2)
                  in tx_drop_hook ring3 iov cookie dp Drop_hook)
             | Hook_accept mp' \<Rightarrow>
                 (let mp_head' = te_hook_head env mp_head in
                  case dp of
                    None \<Rightarrow> tx_finish link m ring2 mp_head' None iov cookie len
                  | Some d \<Rightarrow>
                      (let ring3 = desb_upd ring2 d (\<lambda>x. x\<lparr>d_ref := d_ref x - 1\<rparr>) in
                       if d_ref (desb_get ring3 d) = 1
                       then tx_finish link m
                              (desb_upd ring3 d (\<lambda>x. x\<lparr>d_cookie := 0, d_ref := 0\<rparr>))
                              mp_head' None iov cookie len
                       else tx_finish link m ring3 mp_head' (Some d) iov cookie len)))
      else tx_finish link m ring mp_head dp iov cookie len)"

text \<open>The claim of the reclamation descriptor \<^verbatim>\<open>vr_txdesb[cookie]\<close>: \<open>None\<close> when the
  slot is still in use, else \<open>dp\<close> and the ring.\<close>

definition tx_claim :: "viona_vring \<Rightarrow> 16 word \<Rightarrow> (nat option \<times> viona_vring) option" where
  "tx_claim ring cookie =
     (case vr_txdesb ring of
        None \<Rightarrow> Some (None, ring)
      | Some desb \<Rightarrow>
          if d_ref (desb (unat cookie)) \<noteq> 0 then None
          else Some (Some (unat cookie),
                     desb_upd ring (unat cookie) (\<lambda>x. x\<lparr>d_ref := 1, d_cookie := cookie\<rparr>)))"

definition sizeof_virtio_net_hdr :: nat where "sizeof_virtio_net_hdr = 10"

text \<open>\<^verbatim>\<open>viona_tx(link, ring)\<close>.\<close>

definition viona_tx ::
  "tx_env \<Rightarrow> viona_link \<Rightarrow> kmem \<Rightarrow> viona_vring \<Rightarrow> viona_vring \<times> tx_outcome" where
  "viona_tx env link m ring =
     (case vq_popchain m ring (unat (vr_size ring)) of
        (n, iov, ck, ring1) \<Rightarrow>
          if n = 0 then (stat_tx_absent ring1, Tx_absent)
          else if n < 0 then (ring1, Tx_pop_error)
          else
            let cookie = cookie_of ck;
                len0 = (of_nat (iov_len (iov ! 0)) :: 32 word)
            in
            if iov_len (iov ! 0) < sizeof_virtio_net_hdr
            then tx_drop_fail ring1 None iov cookie None Drop_short_hdr
            else
              case tx_claim ring1 cookie of
                None \<Rightarrow> tx_drop_fail ring1 None iov cookie None Drop_slot_busy
              | Some (dp, ring2) \<Rightarrow>
                  if \<not> te_head_alloc env
                  then tx_drop_fail ring2 None iov cookie dp Drop_alloc
                  else
                    let ring3 = desb_ref_incr dp ring2 in
                    case tx_copy_hdrs m (drop 1 iov) VIONA_MAX_HDRS_LEN [] of
                      (hb, rest, base_off) \<Rightarrow>
                        (case tx_wrap env m dp (Suc (length iov - Suc (length rest))) rest base_off
                                [] ring3 (len0 + of_nat (length hb)) of
                           (ok, blks, ring4, len) \<Rightarrow>
                             let mp_head =
                                   \<lparr>tf_desb = dp,
                                    tf_buf = hb @ drop (length hb) (te_headbuf env),
                                    tf_hlen = length hb, tf_cont = blks,
                                    tf_lso_mss = None, tf_offload = Off_none\<rparr>
                             in if \<not> ok
                                then tx_drop_fail ring4 (Some mp_head) iov cookie dp Drop_alloc
                                else tx_hook env link m ring4 mp_head dp iov cookie len))"

text \<open>When MAC is done with the frame it frees it: the state once every block of a sent
  frame has been freed.\<close>

definition tx_complete :: "viona_vring \<times> tx_outcome \<Rightarrow> viona_vring" where
  "tx_complete r =
     (case snd r of Tx_sent f \<Rightarrow> tx_free f (fst r) | _ \<Rightarrow> fst r)"

subsection \<open>Feature negotiation\<close>




subsection \<open>Vocabulary for scenarios\<close>

text \<open>The ring after a successful pop.\<close>

definition popped :: "viona_vring \<Rightarrow> viona_vring" where
  "popped r = (note_ndesc r)\<lparr>vr_cur_aidx := vr_cur_aidx r + 1\<rparr>"


text \<open>The lengths of the used-ring entries stored, in order.\<close>

fun used_lens :: "vr_event list \<Rightarrow> nat list" where
  "used_lens [] = []"
| "used_lens (Used_elem_store s i l # evs) = unat l # used_lens evs"
| "used_lens (_ # evs) = used_lens evs"


text \<open>
  A walk inside an indirect table: each listed entry but the last is a buffer the lease
  translates, carries NEXT, and names the entry listed after it, which is inside the table.
\<close>

fun indir_chain :: "kmem \<Rightarrow> viona_vring \<Rightarrow> nat \<Rightarrow> nat \<Rightarrow> nat list \<Rightarrow> bool" where
  "indir_chain m ring vindir nindir (e # e' # es) \<longleftrightarrow>
     (let vp = read_desc m vindir e in
      vd_flags vp AND VRING_DESC_F_INDIRECT = 0 \<and> vd_len vp \<noteq> 0 \<and>
      viona_gpa2kva ring (vd_addr vp) (unat (vd_len vp)) \<noteq> None \<and>
      vd_flags vp AND VRING_DESC_F_NEXT \<noteq> 0 \<and> unat (vd_next vp) = e' \<and> e' < nindir \<and>
      indir_chain m ring vindir nindir (e' # es))"
| "indir_chain m ring vindir nindir [e] = True"
| "indir_chain m ring vindir nindir [] = True"

text \<open>The ring after a failed parse that counted \<open>e\<close>.\<close>

definition pop_failed :: "viona_vring \<Rightarrow> pop_err \<Rightarrow> viona_vring" where
  "pop_failed ring e = (note_ndesc ring)\<lparr>vr_stats := stat_incr e (vr_stats (note_ndesc ring))\<rparr>"

text \<open>The store of element \<open>j\<close> of \<open>elem\<close> into the used ring, at the slot of index
  \<open>uidx + j\<close>.\<close>

definition used_put :: "viona_vring \<Rightarrow> 16 word \<Rightarrow> (nat \<Rightarrow> used_elem) \<Rightarrow> nat \<Rightarrow>
    (nat \<Rightarrow> virtio_used) \<Rightarrow> (nat \<Rightarrow> virtio_used)" where
  "used_put ring uidx elem j ur =
     ur(used_slot ring (uidx + of_nat j) :=
          \<lparr>vu_idx = ucast (ue_id (elem j)), vu_tlen = ue_len (elem j)\<rparr>)"

subsection \<open>What the parser promises about a segment\<close>

text \<open>A segment is the result of a successful lease translation of a non-empty range.\<close>

definition seg_ok :: "viona_vring \<Rightarrow> iovec \<Rightarrow> bool" where
  "seg_ok ring s \<longleftrightarrow> 0 < iov_len s \<and> (\<exists>gpa. vr_lease ring gpa (iov_len s) = Some (iov_base s))"

text \<open>
  The descriptors of a chain in a table \<open>tab\<close> of \<open>cnt\<close> entries, from entry \<open>i\<close>: each
  carries NEXT and names the following one in \<open>vd_next\<close>, the last carries no NEXT, and every
  index is inside the table.
\<close>

inductive desc_chain :: "(nat \<Rightarrow> virtio_desc) \<Rightarrow> nat \<Rightarrow> nat \<Rightarrow> virtio_desc list \<Rightarrow> bool"
  for tab :: "nat \<Rightarrow> virtio_desc" and cnt :: nat where
  chain_last: "i < cnt \<Longrightarrow> vd_flags (tab i) AND VRING_DESC_F_NEXT = 0 \<Longrightarrow>
     desc_chain tab cnt i [tab i]"
| chain_link: "i < cnt \<Longrightarrow> vd_flags (tab i) AND VRING_DESC_F_NEXT \<noteq> 0 \<Longrightarrow>
     desc_chain tab cnt (unat (vd_next (tab i))) ds \<Longrightarrow> desc_chain tab cnt i (tab i # ds)"

text \<open>A segment is the translation of a direct descriptor: its length is the descriptor's,
  which is not zero, and its base is what the lease gives for the descriptor's address and
  length.\<close>

definition buf_seg :: "viona_vring \<Rightarrow> virtio_desc \<Rightarrow> iovec \<Rightarrow> bool" where
  "buf_seg ring vd s \<longleftrightarrow>
     vd_flags vd AND VRING_DESC_F_INDIRECT = 0 \<and> vd_len vd \<noteq> 0 \<and>
     vr_lease ring (vd_addr vd) (unat (vd_len vd)) = Some (iov_base s) \<and>
     iov_len s = unat (vd_len vd)"

text \<open>
  The segments a descriptor of the ring stands for: its own when it is direct; when it is
  indirect, with a length that is a positive multiple of 16 and a table the lease translates,
  those of the chain of direct entries from entry 0 of the table.
\<close>

definition desc_segs :: "kmem \<Rightarrow> viona_vring \<Rightarrow> virtio_desc \<Rightarrow> iovec list \<Rightarrow> bool" where
  "desc_segs m ring vd segs \<longleftrightarrow>
     (if vd_flags vd AND VRING_DESC_F_INDIRECT = 0 then \<exists>s. segs = [s] \<and> buf_seg ring vd s
      else vd_len vd AND 0xf = 0 \<and> 0 < unat (vd_len vd) div 16 \<and>
           (\<exists>vindir tds.
              vr_lease ring (vd_addr vd) (unat (vd_len vd)) = Some vindir \<and>
              desc_chain (read_desc m vindir) (unat (vd_len vd) div 16) 0 tds \<and>
              list_all2 (buf_seg ring) tds segs))"

text \<open>The segments of the chain of the ring headed by descriptor \<open>head\<close>, in order.\<close>

definition chain_segs :: "kmem \<Rightarrow> viona_vring \<Rightarrow> nat \<Rightarrow> iovec list \<Rightarrow> bool" where
  "chain_segs m ring head iov \<longleftrightarrow>
     (\<exists>ds segss. desc_chain (vr_descr ring) (unat (vr_size ring)) head ds \<and>
                 list_all2 (desc_segs m ring) ds segss \<and> iov = concat segss)"

subsection \<open>A concrete ring\<close>

text \<open>
  A four-entry ring whose lease maps the first MiB of guest-physical memory at the same
  host addresses; every descriptor is a single device-writable 2048-byte buffer at
  guest-physical 4096, and the guest has posted head 0 once.
\<close>

definition lease0 :: "64 word \<Rightarrow> nat \<Rightarrow> nat option" where
  "lease0 gpa len = (if unat gpa + len \<le> 1048576 then Some (unat gpa) else None)"

definition stats0 :: viona_ring_stats where
  "stats0 = \<lparr>rs_ndesc_too_high = 0, rs_bad_idx = 0, rs_indir_bad_len = 0, rs_indir_bad_nest = 0,
     rs_indir_bad_next = 0, rs_no_space = 0, rs_too_many_desc = 0, rs_desc_bad_len = 0,
     rs_bad_ring_addr = 0, rs_fail_hcksum = 0, rs_fail_hcksum6 = 0, rs_fail_hcksum_proto = 0,
     rs_bad_rx_frame = 0, rs_rx_merge_overrun = 0, rs_rx_merge_underrun = 0, rs_rx_pad_short = 0,
     rs_rx_mcast_check = 0, rs_too_short = 0, rs_tx_absent = 0, rs_rx_hookdrop = 0,
     rs_tx_hookdrop = 0\<rparr>"

definition ring0 :: viona_vring where
  "ring0 = \<lparr>vr_state = VRS_RUN, vr_state_flags = 0, vr_xfer_outstanding = 0, vr_lease = lease0,
     vr_txdesb = None, vr_intr_enabled = 0, vr_msi_addr = 0, vr_msi_msg = 0,
     vr_size = 4, vr_mask = 3, vr_cur_aidx = 0,
     vr_descr = (\<lambda>_. \<lparr>vd_addr = 4096, vd_len = 2048, vd_flags = VRING_DESC_F_WRITE, vd_next = 0\<rparr>),
     vr_avail_flags = 0, vr_avail_idx = 1, vr_avail_ring = (\<lambda>_. 0),
     vr_used_flags = 0, vr_used_idx = 0,
     vr_used_ring = (\<lambda>_. \<lparr>vu_idx = 0, vu_tlen = 0\<rparr>),
     vr_stats = stats0, vr_events = []\<rparr>"

definition kmem0 :: kmem where "kmem0 = (\<lambda>_. 0)"




definition ring4 :: viona_vring where
  "ring4 = \<lparr>vr_state = VRS_RUN, vr_state_flags = 0, vr_xfer_outstanding = 0, vr_lease = lease0,
     vr_txdesb = None, vr_intr_enabled = 0, vr_msi_addr = 0, vr_msi_msg = 0,
     vr_size = 8, vr_mask = 7, vr_cur_aidx = 0,
     vr_descr = (\<lambda>i. \<lparr>vd_addr = of_nat (4096 + 2048 * i), vd_len = 1526,
                         vd_flags = VRING_DESC_F_WRITE, vd_next = 0\<rparr>),
     vr_avail_flags = 0, vr_avail_idx = 4, vr_avail_ring = (\<lambda>i. of_nat i),
     vr_used_flags = 0, vr_used_idx = 0,
     vr_used_ring = (\<lambda>_. \<lparr>vu_idx = 0, vu_tlen = 0\<rparr>),
     vr_stats = stats0, vr_events = []\<rparr>"



definition link0 :: viona_link where
  "link0 = \<lparr>l_vrings = (\<lambda>i. if i = 0 then ring0\<lparr>vr_state := VRS_RESET\<rparr> else ring0),
     l_features = 0, l_cap_csum = 0, l_notify_ioport = 0xc010,
     l_neti = \<lparr>vnh_event_in_interested = False, vnh_event_out_interested = False\<rparr>\<rparr>"

text \<open>
  The ring of above with every descriptor an indirect one, over a table of two entries at
  guest-physical 8192. In \<open>kmemI\<close> entry 0 is a 64-byte buffer that ends the chain and
  entry 1, which nothing links to, has INDIRECT set; in \<open>kmemN\<close> entry 0 links to entry 1.
  \<open>txenv0\<close> is an environment where every allocation succeeds and the hook passes.
\<close>

definition ringI :: viona_vring where
  "ringI = ring0\<lparr>vr_descr :=
     (\<lambda>_. \<lparr>vd_addr = 8192, vd_len = 32, vd_flags = VRING_DESC_F_INDIRECT, vd_next = 0\<rparr>)\<rparr>"

definition kmemI :: kmem where
  "kmemI = (\<lambda>_. 0)(8193 := 0x10, 8200 := 0x40, 8220 := 4)"

definition kmemN :: kmem where
  "kmemN = kmemI(8204 := 1, 8206 := 1)"

definition txenv0 :: tx_env where
  "txenv0 = \<lparr>te_head_alloc = True, te_headbuf = replicate 138 0, te_seg_alloc = (\<lambda>_. True),
     te_hook_out = Hook_accept, te_hook_head = (\<lambda>f. f), te_hook_freed = (\<lambda>_. [])\<rparr>"




section \<open>Properties\<close>

subsection \<open>Push paths\<close>

lemma used_store_simps [simp]:
  "vr_mask (used_store r s a b) = vr_mask r"
  "vr_used_idx (used_store r s a b) = vr_used_idx r"
  "vr_cur_aidx (used_store r s a b) = vr_cur_aidx r"
  "vr_events (used_store r s a b) = vr_events r @ [Used_elem_store s a b]"
  by (simp_all add: used_store_def)

lemma used_slot_used_store [simp]: "used_slot (used_store r s a b) u = used_slot r u"
  by (simp add: used_slot_def)

lemma mrgrx_loop_events:
  "vr_events (mrgrx_loop uidx elem i k ring) =
     vr_events ring @
     map (\<lambda>j. Used_elem_store (used_slot ring (uidx + of_nat j))
                 (ucast (ue_id (elem j))) (ue_len (elem j)))
       [i..<i + k]"
proof (induction k arbitrary: i ring)
  case 0 show ?case by simp
next
  case (Suc k)
  have "[i..<i + Suc k] = i # [Suc i..<Suc i + k]" by (simp add: upt_rec)
  then show ?case by (simp add: Suc.IH)
qed

lemma mrgrx_loop_idx [simp]:
  "vr_used_idx (mrgrx_loop uidx elem i k ring) = vr_used_idx ring"
  by (induction k arbitrary: i ring) simp_all


lemma pushchain_events: "vr_events (vq_pushchain ring len cookie) =
   vr_events ring @ [Used_elem_store (used_slot ring (vr_used_idx ring)) (ucast cookie) len,
      Membar_producer, Used_idx_store (vr_used_idx ring + 1)]"
  by (simp add: vq_pushchain_def used_idx_publish_def Let_def)




lemma used_slot_cong: "vr_mask r' = vr_mask r \<Longrightarrow> used_slot r' u = used_slot r u"
  by (simp add: used_slot_def)

lemma mrgrx_loop_used_ring:
  "vr_used_ring (mrgrx_loop u elem i k r) = fold (used_put r u elem) [i..<i + k] (vr_used_ring r)"
proof (induction k arbitrary: i r)
  case 0
  then show ?case by simp
next
  case (Suc k)
  let ?r1 = "used_store r (used_slot r (u + of_nat i)) (ucast (ue_id (elem i))) (ue_len (elem i))"
  have up: "[i..<i + Suc k] = i # [Suc i..<Suc i + k]" by (simp add: upt_rec)
  have pe: "used_put ?r1 u elem = used_put r u elem"
    by (intro ext) (simp add: used_put_def)
  have "vr_used_ring (mrgrx_loop u elem i (Suc k) r) =
      fold (used_put r u elem) [Suc i..<Suc i + k] (vr_used_ring ?r1)"
    by (simp only: mrgrx_loop.simps Suc.IH pe)
  moreover have "vr_used_ring ?r1 = used_put r u elem i (vr_used_ring r)"
    by (simp add: used_store_def used_put_def)
  ultimately show ?case unfolding up by simp
qed

lemma mrgrx_loop_frame:
  "\<exists>ur ev. mrgrx_loop u elem i k r = r\<lparr>vr_used_ring := ur, vr_events := ev\<rparr>"
proof (induction k arbitrary: i r)
  case 0
  have "r = r\<lparr>vr_used_ring := vr_used_ring r, vr_events := vr_events r\<rparr>" by simp
  then show ?case by (simp only: mrgrx_loop.simps) blast
next
  case (Suc k)
  let ?r1 = "used_store r (used_slot r (u + of_nat i)) (ucast (ue_id (elem i))) (ue_len (elem i))"
  from Suc.IH[of "Suc i" ?r1] obtain ur ev where
    "mrgrx_loop u elem (Suc i) k ?r1 = ?r1\<lparr>vr_used_ring := ur, vr_events := ev\<rparr>" by blast
  then have "mrgrx_loop u elem i (Suc k) r = r\<lparr>vr_used_ring := ur, vr_events := ev\<rparr>"
    by (simp add: used_store_def)
  then show ?case by blast
qed

lemma mrgrx_loop_state:
  "mrgrx_loop u elem i k r =
     r\<lparr>vr_used_ring := fold (used_put r u elem) [i..<i + k] (vr_used_ring r),
       vr_events := vr_events r @
         map (\<lambda>j. Used_elem_store (used_slot r (u + of_nat j))
                     (ucast (ue_id (elem j))) (ue_len (elem j))) [i..<i + k]\<rparr>"
proof -
  from mrgrx_loop_frame[of u elem i k r] obtain ur ev where
    e: "mrgrx_loop u elem i k r = r\<lparr>vr_used_ring := ur, vr_events := ev\<rparr>" by blast
  have a: "ur = fold (used_put r u elem) [i..<i + k] (vr_used_ring r)"
    using mrgrx_loop_used_ring[of u elem i k r] unfolding e by simp
  have b: "ev = vr_events r @
         map (\<lambda>j. Used_elem_store (used_slot r (u + of_nat j))
                     (ucast (ue_id (elem j))) (ue_len (elem j))) [i..<i + k]"
    using mrgrx_loop_events[of u elem i k r] unfolding e by simp
  show ?thesis unfolding e a b ..
qed

lemma vq_pushchain_state:
  "vq_pushchain ring len cookie =
     ring\<lparr>vr_used_ring := (vr_used_ring ring)
             (used_slot ring (vr_used_idx ring) := \<lparr>vu_idx = ucast cookie, vu_tlen = len\<rparr>),
          vr_used_idx := vr_used_idx ring + 1,
          vr_events := vr_events ring @
            [Used_elem_store (used_slot ring (vr_used_idx ring)) (ucast cookie) len,
             Membar_producer, Used_idx_store (vr_used_idx ring + 1)]\<rparr>"
  by (simp add: vq_pushchain_def used_store_def used_idx_publish_def Let_def)

lemma vq_pushchain_mrgrx_state:
  "vq_pushchain_mrgrx ring k elem =
     ring\<lparr>vr_used_ring := fold (used_put ring (vr_used_idx ring) elem) [0..<k] (vr_used_ring ring),
          vr_used_idx := vr_used_idx ring + of_nat k,
          vr_events := vr_events ring @
            map (\<lambda>j. Used_elem_store (used_slot ring (vr_used_idx ring + of_nat j))
                       (ucast (ue_id (elem j))) (ue_len (elem j))) [0..<k] @
            [Membar_producer, Used_idx_store (vr_used_idx ring + of_nat k)]\<rparr>"
proof (cases "k = 1")
  case True
  then show ?thesis
    by (simp add: vq_pushchain_mrgrx_def Let_def used_store_def used_idx_publish_def used_put_def)
next
  case False
  then show ?thesis
    using mrgrx_loop_state[of "vr_used_idx ring" elem 0 k ring]
    by (simp add: vq_pushchain_mrgrx_def Let_def used_idx_publish_def)
qed

subsection \<open>Descriptor parser\<close>

lemma indir_walk_inv:
  "indir_walk m ring vindir nindir niov next iov = Inr iov' \<Longrightarrow>
   length iov < niov \<Longrightarrow> \<forall>s\<in>set iov. seg_ok ring s \<Longrightarrow>
   length iov' \<le> niov \<and> (\<forall>s\<in>set iov'. seg_ok ring s)"
proof (induction m ring vindir nindir niov "next" iov rule: indir_walk.induct)
  case (1 m ring vindir nindir niov nxt iov)
  show ?case
    using "1.prems" "1.IH"
    by (subst (asm) indir_walk.simps)
       (fastforce simp: Let_def seg_ok_def viona_gpa2kva_def unat_gt_0 split: if_splits option.splits)
qed

lemma popchain_loop_inv:
  "popchain_loop m ring niov next iov = Inr iov' \<Longrightarrow>
   \<forall>s\<in>set iov. seg_ok ring s \<Longrightarrow>
   length iov < length iov' \<and> length iov' \<le> niov \<and> (\<forall>s\<in>set iov'. seg_ok ring s)"
proof (induction m ring niov "next" iov arbitrary: iov' rule: popchain_loop.induct)
  case (1 m ring niov nxt iov)
  let ?vdir = "vr_descr ring nxt"
  from "1.prems"(1) have lt: "length iov < niov" and inr: "nxt < unat (vr_size ring)"
    by (subst (asm) popchain_loop.simps, simp split: if_splits)+
  show ?case
  proof (cases "vd_flags ?vdir AND VRING_DESC_F_INDIRECT = 0")
    case True
    from "1.prems"(1) lt inr True obtain buf where
      len: "vd_len ?vdir \<noteq> 0" and
      buf: "viona_gpa2kva ring (vd_addr ?vdir) (unat (vd_len ?vdir)) = Some buf" and
      rest: "(if vd_flags ?vdir AND VRING_DESC_F_NEXT = 0
              then Inr (iov @ [\<lparr>iov_base = buf, iov_len = unat (vd_len ?vdir)\<rparr>])
              else popchain_loop m ring niov (unat (vd_next ?vdir))
                     (iov @ [\<lparr>iov_base = buf, iov_len = unat (vd_len ?vdir)\<rparr>])) = Inr iov'"
      by (subst (asm) popchain_loop.simps) (auto simp: Let_def split: if_splits option.splits)
    let ?iov1 = "iov @ [\<lparr>iov_base = buf, iov_len = unat (vd_len ?vdir)\<rparr>]"
    have ok1: "\<forall>s\<in>set ?iov1. seg_ok ring s"
      using "1.prems"(2) len buf by (auto simp: seg_ok_def viona_gpa2kva_def unat_gt_0)
    show ?thesis
    proof (cases "vd_flags ?vdir AND VRING_DESC_F_NEXT = 0")
      case T2: True
      with rest have "iov' = ?iov1" by simp
      with ok1 lt show ?thesis by auto
    next
      case F2: False
      with rest have r: "popchain_loop m ring niov (unat (vd_next ?vdir)) ?iov1 = Inr iov'" by simp
      have "length ?iov1 < length iov' \<and> length iov' \<le> niov \<and> (\<forall>s\<in>set iov'. seg_ok ring s)"
        using "1.IH"(1)[OF _ _ refl True len buf refl F2 r ok1] lt inr by simp
      then show ?thesis by simp
    qed
  next
    case False
    let ?nindir = "unat (vd_len ?vdir) div 16"
    from "1.prems"(1) lt inr False obtain vindir iov1 where
      len: "\<not> (vd_len ?vdir AND 0xf \<noteq> 0 \<or> ?nindir = 0)" and
      buf: "viona_gpa2kva ring (vd_addr ?vdir) (unat (vd_len ?vdir)) = Some vindir" and
      walk: "indir_walk m ring vindir ?nindir niov 0 iov = Inr iov1" and
      rest: "(if vd_flags ?vdir AND VRING_DESC_F_NEXT = 0 then Inr iov1
              else popchain_loop m ring niov (unat (vd_next ?vdir)) iov1) = Inr iov'"
      by (subst (asm) popchain_loop.simps)
         (auto simp: Let_def split: if_splits option.splits sum.splits)
    from indir_walk_inv[OF walk lt "1.prems"(2)] indir_walk_grows[OF walk]
    have ok1: "\<forall>s\<in>set iov1. seg_ok ring s" and l1: "length iov1 \<le> niov" "length iov < length iov1"
      by auto
    show ?thesis
    proof (cases "vd_flags ?vdir AND VRING_DESC_F_NEXT = 0")
      case T2: True
      with rest have "iov' = iov1" by simp
      with ok1 l1 show ?thesis by auto
    next
      case F2: False
      with rest have r: "popchain_loop m ring niov (unat (vd_next ?vdir)) iov1 = Inr iov'" by simp
      have "length iov1 < length iov' \<and> length iov' \<le> niov \<and> (\<forall>s\<in>set iov'. seg_ok ring s)"
        using "1.IH"(2)[OF _ _ refl False refl len buf walk F2 r ok1] lt inr by simp
      with l1 show ?thesis by simp
    qed
  qed
qed


lemma note_ndesc_simps [simp]:
  "vr_cur_aidx (note_ndesc r) = vr_cur_aidx r"
  "vr_lease (note_ndesc r) = vr_lease r"
  "vr_size (note_ndesc r) = vr_size r"
  "vr_descr (note_ndesc r) = vr_descr r"
  by (simp_all add: note_ndesc_def)

lemma seg_ok_note_ndesc [simp]: "seg_ok (note_ndesc r) s = seg_ok r s"
  by (simp add: seg_ok_def)

lemma ring0_fields [simp]:
  "vr_used_idx ring0 = 0" "vr_mask ring0 = 3" "vr_size ring0 = 4" "vr_events ring0 = []"
  "vr_cur_aidx ring0 = 0" "vr_avail_idx ring0 = 1" "vr_lease ring0 = lease0"
  "vr_avail_ring ring0 = (\<lambda>_. 0)" "vr_avail_flags ring0 = 0" "vr_stats ring0 = stats0"
  "vr_used_ring ring0 = (\<lambda>_. \<lparr>vu_idx = 0, vu_tlen = 0\<rparr>)" "vr_txdesb ring0 = None"
  "vr_msi_addr ring0 = 0" "vr_intr_enabled ring0 = 0"
  by (simp_all add: ring0_def)

lemma popchain_ring0: "vq_popchain kmem0 ring0 32 =
   (1, [\<lparr>iov_base = 4096, iov_len = 2048\<rparr>], Some 0, ring0\<lparr>vr_cur_aidx := 1\<rparr>)"
  by (simp add: vq_popchain_def ring0_def note_ndesc_def popchain_loop.simps lease0_def
      viona_gpa2kva_def VRING_DESC_F_INDIRECT_def VRING_DESC_F_NEXT_def VRING_DESC_F_WRITE_def)



lemma note_ndesc_fields [simp]:
  "vr_avail_idx (note_ndesc r) = vr_avail_idx r"
  "vr_avail_ring (note_ndesc r) = vr_avail_ring r"
  "vr_avail_flags (note_ndesc r) = vr_avail_flags r"
  "vr_mask (note_ndesc r) = vr_mask r"
  "vr_used_idx (note_ndesc r) = vr_used_idx r"
  "vr_used_ring (note_ndesc r) = vr_used_ring r"
  "vr_events (note_ndesc r) = vr_events r"
  "vr_msi_addr (note_ndesc r) = vr_msi_addr r"
  "vr_msi_msg (note_ndesc r) = vr_msi_msg r"
  "vr_intr_enabled (note_ndesc r) = vr_intr_enabled r"
  by (simp_all add: note_ndesc_def)





lemma buf_seg_note_ndesc [simp]: "buf_seg (note_ndesc ring) = buf_seg ring"
  by (intro ext) (simp add: buf_seg_def)

lemma desc_segs_note_ndesc [simp]: "desc_segs m (note_ndesc ring) = desc_segs m ring"
  by (intro ext) (simp add: desc_segs_def)

lemma chain_segs_note_ndesc [simp]:
  "chain_segs m (note_ndesc ring) head iov = chain_segs m ring head iov"
  by (simp add: chain_segs_def)





text \<open>
  Claim C2. A successful \<^verbatim>\<open>vq_popchain\<close> advances \<open>cur_aidx\<close> by exactly one
  (modulo \<open>2^16\<close>) whatever the length of the chain, and an empty or failed call leaves it
  alone. \<^verbatim>\<open>vq_pushchain\<close> stores its element into the used ring at the slot of
  \<open>used_idx\<close> and advances \<open>used_idx\<close> by one; \<^verbatim>\<open>vq_pushchain_mrgrx\<close> with \<open>k\<close>
  elements stores them at the \<open>k\<close> slots from \<open>used_idx\<close> on and advances \<open>used_idx\<close> by
  \<open>k\<close>. Neither changes anything else of the ring, and in both the stores into the used-ring
  entries come first, then the store fence, then the store of the index.
\<close>

theorem ring_index_progress:
  "(case vq_popchain m ring niov of
      (n, iov, c, ring') \<Rightarrow>
        vr_cur_aidx ring' = (if 0 < n then vr_cur_aidx ring + 1 else vr_cur_aidx ring))
   \<and> vq_pushchain ring len cookie =
       ring\<lparr>vr_used_ring := (vr_used_ring ring)
               (used_slot ring (vr_used_idx ring) := \<lparr>vu_idx = ucast cookie, vu_tlen = len\<rparr>),
            vr_used_idx := vr_used_idx ring + 1,
            vr_events := vr_events ring @
              [Used_elem_store (used_slot ring (vr_used_idx ring)) (ucast cookie) len,
               Membar_producer, Used_idx_store (vr_used_idx ring + 1)]\<rparr>
   \<and> vq_pushchain_mrgrx ring k elem =
       ring\<lparr>vr_used_ring :=
               fold (used_put ring (vr_used_idx ring) elem) [0..<k] (vr_used_ring ring),
            vr_used_idx := vr_used_idx ring + of_nat k,
            vr_events := vr_events ring @
              map (\<lambda>j. Used_elem_store (used_slot ring (vr_used_idx ring + of_nat j))
                         (ucast (ue_id (elem j))) (ue_len (elem j))) [0..<k] @
              [Membar_producer, Used_idx_store (vr_used_idx ring + of_nat k)]\<rparr>"
proof -
  have pop: "case vq_popchain m ring niov of
      (n, iov, c, ring') \<Rightarrow>
        vr_cur_aidx ring' = (if 0 < n then vr_cur_aidx ring + 1 else vr_cur_aidx ring)"
  proof (cases "popchain_loop m (note_ndesc ring) niov
      (unat (vr_avail_ring ring (unat (vr_cur_aidx ring AND vr_mask ring)))) []")
    case (Inl e)
    then show ?thesis by (simp add: vq_popchain_def Let_def)
  next
    case (Inr iov1)
    from popchain_loop_inv[OF Inr] have "length [] < length iov1" by simp
    with Inr show ?thesis by (simp add: vq_popchain_def Let_def)
  qed
  show ?thesis
    using pop vq_pushchain_state[of ring len cookie] vq_pushchain_mrgrx_state[of ring k elem]
    by (intro conjI)
qed

theorem ring_index_progress_witness:
  "vr_cur_aidx (snd (snd (snd (vq_popchain kmem0 ring0 32)))) = 1
   \<and> vr_used_idx (vq_pushchain ring0 70 0) = 1
   \<and> vr_used_ring (vq_pushchain ring0 70 0) 0 = \<lparr>vu_idx = 0, vu_tlen = 70\<rparr>
   \<and> vr_events (vq_pushchain ring0 70 0) =
       [Used_elem_store 0 0 70, Membar_producer, Used_idx_store 1]
   \<and> vr_used_idx (vq_pushchain_mrgrx ring0 2 (\<lambda>j. \<lparr>ue_id = of_nat j, ue_len = 1526\<rparr>)) = 2
   \<and> vr_used_ring (vq_pushchain_mrgrx ring0 2 (\<lambda>j. \<lparr>ue_id = of_nat j, ue_len = 1526\<rparr>)) 0 =
       \<lparr>vu_idx = 0, vu_tlen = 1526\<rparr>
   \<and> vr_used_ring (vq_pushchain_mrgrx ring0 2 (\<lambda>j. \<lparr>ue_id = of_nat j, ue_len = 1526\<rparr>)) 1 =
       \<lparr>vu_idx = 1, vu_tlen = 1526\<rparr>
   \<and> vr_events (vq_pushchain_mrgrx ring0 2 (\<lambda>j. \<lparr>ue_id = of_nat j, ue_len = 1526\<rparr>)) =
       [Used_elem_store 0 0 1526, Used_elem_store 1 1 1526, Membar_producer, Used_idx_store 2]"
proof -
  have u: "[0..<2] = [0, Suc 0]" by (simp add: upt_rec)
  note t = ring_index_progress[where m = kmem0 and ring = ring0 and niov = 32 and len = 70
      and cookie = 0 and k = 2 and elem = "\<lambda>j. \<lparr>ue_id = of_nat j, ue_len = 1526\<rparr>", unfolded u]
  note t1 = t[THEN conjunct1] note t2 = t[THEN conjunct2, THEN conjunct1]
  note t3 = t[THEN conjunct2, THEN conjunct2]
  have a: "vr_cur_aidx (snd (snd (snd (vq_popchain kmem0 ring0 32)))) = 1"
    using t1 popchain_ring0 by simp
  show ?thesis
    using a by (simp add: t2 t3 used_slot_def used_put_def)
qed

text \<open>
  Claim C9. Pushing the single element \<open>{id, len}\<close> through
  \<^verbatim>\<open>vq_pushchain_mrgrx\<close> (\<open>num_bufs = 1\<close>, \<open>elem[0] = {id, len}\<close>) leaves the ring,
  its used ring and \<open>used_idx\<close> included, in exactly the state that
  \<^verbatim>\<open>vq_pushchain(ring, len, id)\<close> produces.
\<close>

theorem vq_pushchain_mrgrx_single:
  "vq_pushchain_mrgrx ring 1 (elem(0 := \<lparr>ue_id = cookie, ue_len = len\<rparr>)) =
     vq_pushchain ring len cookie"
  by (simp add: vq_pushchain_mrgrx_def vq_pushchain_def Let_def)

theorem vq_pushchain_mrgrx_single_witness:
  "vq_pushchain_mrgrx ring0 1 ((\<lambda>_. \<lparr>ue_id = 0, ue_len = 0\<rparr>)(0 := \<lparr>ue_id = 3, ue_len = 70\<rparr>)) =
     vq_pushchain ring0 70 3
   \<and> vr_used_idx (vq_pushchain ring0 70 3) = 1
   \<and> vr_used_ring (vq_pushchain ring0 70 3) 0 = \<lparr>vu_idx = 3, vu_tlen = 70\<rparr>"
  using vq_pushchain_mrgrx_single[where ring = ring0 and cookie = 3 and len = 70
      and elem = "\<lambda>_. \<lparr>ue_id = 0, ue_len = 0\<rparr>"]
  by (simp add: vq_pushchain_def used_idx_publish_def used_store_def used_slot_def)

subsection \<open>The frame-copy helper\<close>

lemma bcopy_Nil [simp]: "bcopy [] dst m = m"
  by (rule ext) (auto simp: bcopy_def)





subsection \<open>Plain RX\<close>



lemma pushchain_stat_events:
  "vr_events (vq_pushchain (stat_bad_rx_frame r) len cookie) =
     vr_events r @ [Used_elem_store (used_slot r (vr_used_idx r)) (ucast cookie) len,
       Membar_producer, Used_idx_store (vr_used_idx r + 1)]"
  by (simp add: pushchain_events stat_bad_rx_frame_def used_slot_def)







lemma stat_fields [simp]:
  "vr_avail_idx (stat_rx_pad_short r) = vr_avail_idx r"
  "vr_cur_aidx (stat_rx_pad_short r) = vr_cur_aidx r"
  "vr_avail_ring (stat_rx_pad_short r) = vr_avail_ring r"
  "vr_avail_flags (stat_rx_pad_short r) = vr_avail_flags r"
  "vr_mask (stat_rx_pad_short r) = vr_mask r"
  "vr_size (stat_rx_pad_short r) = vr_size r"
  "vr_descr (stat_rx_pad_short r) = vr_descr r"
  "vr_lease (stat_rx_pad_short r) = vr_lease r"
  "vr_used_idx (stat_rx_pad_short r) = vr_used_idx r"
  "vr_used_ring (stat_rx_pad_short r) = vr_used_ring r"
  "vr_events (stat_rx_pad_short r) = vr_events r"
  "vr_msi_addr (stat_rx_pad_short r) = vr_msi_addr r"
  "vr_msi_msg (stat_rx_pad_short r) = vr_msi_msg r"
  "vr_intr_enabled (stat_rx_pad_short r) = vr_intr_enabled r"
  by (simp_all add: stat_rx_pad_short_def)

lemma pushchain_fields [simp]:
  "vr_cur_aidx (vq_pushchain r len c) = vr_cur_aidx r"
  "vr_avail_flags (vq_pushchain r len c) = vr_avail_flags r"
  "vr_msi_addr (vq_pushchain r len c) = vr_msi_addr r"
  "vr_msi_msg (vq_pushchain r len c) = vr_msi_msg r"
  "vr_intr_enabled (vq_pushchain r len c) = vr_intr_enabled r"
  "vr_used_ring (vq_pushchain r len c) =
     (vr_used_ring r)(used_slot r (vr_used_idx r) := \<lparr>vu_idx = ucast c, vu_tlen = len\<rparr>)"
  by (simp_all add: vq_pushchain_def used_idx_publish_def used_store_def Let_def)

lemma intr_ring_fields [simp]:
  "vr_cur_aidx (viona_intr_ring r) = vr_cur_aidx r"
  "vr_used_idx (viona_intr_ring r) = vr_used_idx r"
  "vr_used_ring (viona_intr_ring r) = vr_used_ring r"
  by (simp_all add: viona_intr_ring_def)





lemma link0_fields [simp]:
  "l_features link0 = 0" "l_neti link0 = \<lparr>vnh_event_in_interested = False, vnh_event_out_interested = False\<rparr>"
  "l_notify_ioport link0 = 0xc010" "l_cap_csum link0 = 0"
  by (simp_all add: link0_def)

lemma ring0_descr [simp]:
  "vr_descr ring0 = (\<lambda>_. \<lparr>vd_addr = 4096, vd_len = 2048, vd_flags = VRING_DESC_F_WRITE, vd_next = 0\<rparr>)"
  by (simp add: ring0_def)




subsection \<open>Mergeable RX\<close>

lemma rd16_wr16_same [simp]: "rd16 (wr16 m p v) p = v"
proof -
  have lt: "unat v < 65536" using unsigned_less[of v, where 'a = nat] by simp
  have a: "unat (ucast v :: 8 word) = unat v mod 256"
    by (simp add: unsigned_ucast_eq take_bit_eq_mod)
  have "unat (ucast (drop_bit 8 v) :: 8 word) = (unat v div 256) mod 256"
    by (simp add: unsigned_ucast_eq unsigned_drop_bit_eq take_bit_eq_mod drop_bit_eq_div
        unat_div)
  moreover have "unat v div 256 < 256" using lt by simp
  ultimately have b: "unat (ucast (drop_bit 8 v) :: 8 word) = unat v div 256" by simp
  have "unat (ucast v :: 8 word) + 256 * unat (ucast (drop_bit 8 v) :: 8 word) = unat v"
    unfolding a b by simp
  then show ?thesis by (simp add: rd16_def wr16_def)
qed

lemma rd16_wr16_other [simp]: "q + 2 \<le> p \<or> p + 2 \<le> q \<Longrightarrow> rd16 (wr16 m p v) q = rd16 m q"
  by (auto simp: rd16_def wr16_def)

lemma rd16_bcopy_out [simp]:
  "p + 2 \<le> dst \<or> dst + length src \<le> p \<Longrightarrow> rd16 (bcopy src dst m) p = rd16 m p"
  by (auto simp: rd16_def bcopy_def)

lemma rd16_upd_other [simp]: "a \<noteq> p \<Longrightarrow> a \<noteq> Suc p \<Longrightarrow> rd16 (m(a := x)) p = rd16 m p"
  by (simp add: rd16_def)

lemma rd16_bzero [simp]: "q \<le> p \<Longrightarrow> p + 2 \<le> q + n \<Longrightarrow> rd16 (bzero m q n) p = 0"
  by (simp add: rd16_def bzero_def)

lemma byte_wr16_other [simp]: "a \<noteq> p \<Longrightarrow> a \<noteq> Suc p \<Longrightarrow> wr16 m p v a = m a"
  by (simp add: wr16_def)

lemma byte_bcopy_out [simp]: "a < dst \<or> dst + length src \<le> a \<Longrightarrow> bcopy src dst m a = m a"
  by (auto simp: bcopy_def)

lemma byte_bzero_in [simp]: "q \<le> a \<Longrightarrow> a < q + n \<Longrightarrow> bzero m q n a = 0"
  by (simp add: bzero_def)


lemma popped_fields [simp]:
  "vr_cur_aidx (popped r) = vr_cur_aidx r + 1"
  "vr_avail_idx (popped r) = vr_avail_idx r"
  "vr_avail_ring (popped r) = vr_avail_ring r"
  "vr_avail_flags (popped r) = vr_avail_flags r"
  "vr_mask (popped r) = vr_mask r"
  "vr_size (popped r) = vr_size r"
  "vr_descr (popped r) = vr_descr r"
  "vr_lease (popped r) = vr_lease r"
  "vr_used_idx (popped r) = vr_used_idx r"
  "vr_used_ring (popped r) = vr_used_ring r"
  "vr_events (popped r) = vr_events r"
  by (simp_all add: popped_def)










lemma mrgrx_fields [simp]:
  "vr_cur_aidx (vq_pushchain_mrgrx r k elem) = vr_cur_aidx r"
proof -
  have "vr_cur_aidx (mrgrx_loop u elem i k r) = vr_cur_aidx r" for u i
    by (induction k arbitrary: i r) simp_all
  then show ?thesis
    by (simp add: vq_pushchain_mrgrx_def used_idx_publish_def Let_def)
qed




lemma ring4_fields [simp]:
  "vr_used_idx ring4 = 0" "vr_mask ring4 = 7" "vr_size ring4 = 8" "vr_events ring4 = []"
  "vr_cur_aidx ring4 = 0" "vr_avail_idx ring4 = 4" "vr_lease ring4 = lease0"
  "vr_avail_ring ring4 = (\<lambda>i. of_nat i)"
  "vr_descr ring4 = (\<lambda>i. \<lparr>vd_addr = of_nat (4096 + 2048 * i), vd_len = 1526,
                         vd_flags = VRING_DESC_F_WRITE, vd_next = 0\<rparr>)"
  by (simp_all add: ring4_def)








subsection \<open>Notify hook\<close>

lemma unat_ucast_16_32: "unat (ucast (w :: 16 word) :: 32 word) = unat w"
  by transfer (simp add: take_bit_nat_eq_self take_bit_int_eq_self)

text \<open>
  Claim C10. A write to the notify hook returns EINVAL and leaves the link, hence every ring,
  as it was whenever the write is not two bytes wide or the port is not the registered
  notify port. Otherwise the low 16 bits of the value select the ring: an index of 2 or more
  is EINVAL, and a kick to a ring in the RESET state is EBUSY; both leave the link unchanged,
  so no state flag is set and no broadcast wakes the worker.
\<close>

theorem viona_notify_wcb_rejects:
  "(sz \<noteq> 2 \<or> ioport \<noteq> l_notify_ioport link \<longrightarrow>
      viona_notify_wcb link ioport sz val = (EINVAL, link))
   \<and> (sz = 2 \<and> ioport = l_notify_ioport link \<and> 2 \<le> unat (ucast val :: 16 word) \<longrightarrow>
      viona_notify_wcb link ioport sz val = (EINVAL, link))
   \<and> (sz = 2 \<and> ioport = l_notify_ioport link \<and> unat (ucast val :: 16 word) < 2
        \<and> vr_state (l_vrings link (unat (ucast val :: 16 word))) = VRS_RESET \<longrightarrow>
      viona_notify_wcb link ioport sz val = (EBUSY, link))"
  by (auto simp: viona_notify_wcb_def viona_ioc_ring_kick_def VIONA_VQ_MAX_def Let_def
      VRS_RESET_def VRS_SETUP_def VRS_INIT_def VRS_RUN_def unat_ucast_16_32)

theorem viona_notify_wcb_rejects_witness:
  "viona_notify_wcb link0 0xc010 4 0 = (EINVAL, link0)
   \<and> viona_notify_wcb link0 0xc010 2 0x10002 = (EINVAL, link0)
   \<and> viona_notify_wcb link0 0xc010 2 0x10000 = (EBUSY, link0)
   \<and> fst (viona_notify_wcb link0 0xc010 2 1) = E_OK"
proof -
  have p: "l_notify_ioport link0 = 0xc010" by (simp add: link0_def)
  have s: "vr_state (l_vrings link0 0) = VRS_RESET" "vr_state (l_vrings link0 1) = VRS_RUN"
    by (simp_all add: link0_def ring0_def)
  have a: "viona_notify_wcb link0 0xc010 4 0 = (EINVAL, link0)"
    using viona_notify_wcb_rejects[where link = link0 and ioport = "0xc010" and sz = 4 and val = 0]
    by simp
  have b: "viona_notify_wcb link0 0xc010 2 0x10002 = (EINVAL, link0)"
    using viona_notify_wcb_rejects[where link = link0 and ioport = "0xc010" and sz = 2
        and val = "0x10002"] p
    by simp
  have c: "viona_notify_wcb link0 0xc010 2 0x10000 = (EBUSY, link0)"
    using viona_notify_wcb_rejects[where link = link0 and ioport = "0xc010" and sz = 2
        and val = "0x10000"] p s
    by simp
  have d: "fst (viona_notify_wcb link0 0xc010 2 1) = E_OK"
    using p s
    by (simp add: viona_notify_wcb_def viona_ioc_ring_kick_def VIONA_VQ_MAX_def Let_def
        VRS_RESET_def VRS_SETUP_def VRS_INIT_def VRS_RUN_def unat_ucast_16_32)
  from a b c d show ?thesis by simp
qed

subsection \<open>Indirect tables\<close>

lemma indir_walk_nest:
  "indir_chain m ring vindir nindir (e # es) \<Longrightarrow> length iov + length (e # es) \<le> niov \<Longrightarrow>
   vd_flags (read_desc m vindir (last (e # es))) AND VRING_DESC_F_INDIRECT \<noteq> 0 \<Longrightarrow>
   indir_walk m ring vindir nindir niov e iov = Inl Indir_bad_nest"
proof (induction es arbitrary: e iov)
  case Nil
  then show ?case by (subst indir_walk.simps) (simp add: Let_def)
next
  case (Cons e' es)
  from Cons.prems(1) obtain buf where
    a: "vd_flags (read_desc m vindir e) AND VRING_DESC_F_INDIRECT = 0"
       "vd_len (read_desc m vindir e) \<noteq> 0"
       "viona_gpa2kva ring (vd_addr (read_desc m vindir e)) (unat (vd_len (read_desc m vindir e))) = Some buf"
       "vd_flags (read_desc m vindir e) AND VRING_DESC_F_NEXT \<noteq> 0"
       "unat (vd_next (read_desc m vindir e)) = e'" "e' < nindir"
       "indir_chain m ring vindir nindir (e' # es)"
    by (auto simp: Let_def)
  have "indir_walk m ring vindir nindir niov e'
          (iov @ [\<lparr>iov_base = buf, iov_len = unat (vd_len (read_desc m vindir e))\<rparr>]) = Inl Indir_bad_nest"
    using Cons.IH[OF a(7)] Cons.prems(2,3) by simp
  then show ?case
    using a Cons.prems(2) by (subst indir_walk.simps) (simp add: Let_def)
qed

lemma indir_walk_next:
  "indir_chain m ring vindir nindir (e # es) \<Longrightarrow> length iov + length (e # es) < niov \<Longrightarrow>
   vp = read_desc m vindir (last (e # es)) \<Longrightarrow>
   vd_flags vp AND VRING_DESC_F_INDIRECT = 0 \<Longrightarrow> vd_len vp \<noteq> 0 \<Longrightarrow>
   viona_gpa2kva ring (vd_addr vp) (unat (vd_len vp)) \<noteq> None \<Longrightarrow>
   vd_flags vp AND VRING_DESC_F_NEXT \<noteq> 0 \<Longrightarrow> nindir \<le> unat (vd_next vp) \<Longrightarrow>
   indir_walk m ring vindir nindir niov e iov = Inl Indir_bad_next"
proof (induction es arbitrary: e iov)
  case Nil
  then show ?case by (subst indir_walk.simps) (auto simp add: Let_def)
next
  case (Cons e' es)
  from Cons.prems(1) obtain buf where
    a: "vd_flags (read_desc m vindir e) AND VRING_DESC_F_INDIRECT = 0"
       "vd_len (read_desc m vindir e) \<noteq> 0"
       "viona_gpa2kva ring (vd_addr (read_desc m vindir e)) (unat (vd_len (read_desc m vindir e))) = Some buf"
       "vd_flags (read_desc m vindir e) AND VRING_DESC_F_NEXT \<noteq> 0"
       "unat (vd_next (read_desc m vindir e)) = e'" "e' < nindir"
       "indir_chain m ring vindir nindir (e' # es)"
    by (auto simp: Let_def)
  have "indir_walk m ring vindir nindir niov e'
          (iov @ [\<lparr>iov_base = buf, iov_len = unat (vd_len (read_desc m vindir e))\<rparr>]) = Inl Indir_bad_next"
    using Cons.IH[OF a(7) _ _ Cons.prems(4-8)] Cons.prems(2,3) by simp
  then show ?case
    using a Cons.prems(2) by (subst indir_walk.simps) (simp add: Let_def)
qed

lemma vq_popchain_indirect:
  assumes posted: "vr_avail_idx ring \<noteq> vr_cur_aidx ring"
    and head: "vr_avail_ring ring (unat (vr_cur_aidx ring AND vr_mask ring)) = head"
      "unat head < unat (vr_size ring)"
    and vdir: "vr_descr ring (unat head) = vdir" "vd_flags vdir AND VRING_DESC_F_INDIRECT \<noteq> 0"
  shows "vd_len vdir AND 0xf \<noteq> 0 \<or> unat (vd_len vdir) div 16 = 0 \<Longrightarrow>
         vq_popchain m ring (unat (vr_size ring)) = (- 1, [], None, pop_failed ring Indir_bad_len)"
    and "vd_len vdir AND 0xf = 0 \<Longrightarrow> unat (vd_len vdir) div 16 \<noteq> 0 \<Longrightarrow>
         vr_lease ring (vd_addr vdir) (unat (vd_len vdir)) = Some vindir \<Longrightarrow>
         indir_walk m (note_ndesc ring) vindir (unat (vd_len vdir) div 16) (unat (vr_size ring)) 0 [] = Inl e \<Longrightarrow>
         vq_popchain m ring (unat (vr_size ring)) = (- 1, [], None, pop_failed ring e)"
proof -
  show "vd_len vdir AND 0xf \<noteq> 0 \<or> unat (vd_len vdir) div 16 = 0 \<Longrightarrow>
         vq_popchain m ring (unat (vr_size ring)) = (- 1, [], None, pop_failed ring Indir_bad_len)"
    using assms
    by (subst vq_popchain_def, subst popchain_loop.simps)
       (auto simp: Let_def pop_failed_def)
  show "vd_len vdir AND 0xf = 0 \<Longrightarrow> unat (vd_len vdir) div 16 \<noteq> 0 \<Longrightarrow>
         vr_lease ring (vd_addr vdir) (unat (vd_len vdir)) = Some vindir \<Longrightarrow>
         indir_walk m (note_ndesc ring) vindir (unat (vd_len vdir) div 16) (unat (vr_size ring)) 0 [] = Inl e \<Longrightarrow>
         vq_popchain m ring (unat (vr_size ring)) = (- 1, [], None, pop_failed ring e)"
    using assms
    by (subst vq_popchain_def, subst popchain_loop.simps)
       (auto simp: Let_def pop_failed_def viona_gpa2kva_def)
qed

lemma indir_chain_note_ndesc [simp]:
  "indir_chain m (note_ndesc ring) vindir nindir path = indir_chain m ring vindir nindir path"
  by (induction m ring vindir nindir path rule: indir_chain.induct)
     (simp_all add: viona_gpa2kva_def Let_def)

lemma viona_tx_pop_error:
  "vq_popchain m ring (unat (vr_size ring)) = (- 1, iov, ck, ring1) \<Longrightarrow>
   viona_tx env link m ring = (ring1, Tx_pop_error)"
  by (simp add: viona_tx_def)

lemma pop_failed_fields:
  "vr_cur_aidx (pop_failed ring e) = vr_cur_aidx ring"
  "vr_events (pop_failed ring e) = vr_events ring"
  "vr_used_idx (pop_failed ring e) = vr_used_idx ring"
  "vr_used_ring (pop_failed ring e) = vr_used_ring ring"
  "rs_indir_bad_nest (vr_stats (pop_failed ring Indir_bad_nest)) = rs_indir_bad_nest (vr_stats ring) + 1"
  by (simp_all add: pop_failed_def note_ndesc_def)


text \<open>
  Claim C8. A posted chain whose head descriptor has INDIRECT set is rejected by the parser
  with -1, and \<^verbatim>\<open>viona_tx\<close> then returns with no frame for MAC, no store into the
  used ring and \<open>cur_aidx\<close> where it was, in each of these cases: \<open>indir_bad_len\<close> is
  counted when the head's length is not a positive multiple of 16; \<open>indir_bad_nest\<close> when
  the walk of the table, from entry 0 along the NEXT links of entries that are translated
  buffers, comes within the capacity to an entry with INDIRECT set; \<open>indir_bad_next\<close> when
  it comes to such a buffer entry whose NEXT link names an entry at or beyond the table's
  count. An entry with INDIRECT set that the walk does not come to is never read.
\<close>

theorem indirect_table_rejected:
  assumes posted: "vr_avail_idx ring \<noteq> vr_cur_aidx ring"
    and head: "vr_avail_ring ring (unat (vr_cur_aidx ring AND vr_mask ring)) = head"
      "unat head < unat (vr_size ring)"
    and vdir: "vr_descr ring (unat head) = vdir" "vd_flags vdir AND VRING_DESC_F_INDIRECT \<noteq> 0"
    and nindir: "nindir = unat (vd_len vdir) div 16"
    and last: "vp = read_desc m vindir (last (0 # path))"
  shows
    "(vd_len vdir AND 0xf \<noteq> 0 \<or> nindir = 0 \<longrightarrow>
        vq_popchain m ring (unat (vr_size ring)) = (- 1, [], None, pop_failed ring Indir_bad_len)
        \<and> viona_tx env link m ring = (pop_failed ring Indir_bad_len, Tx_pop_error))
     \<and> (vd_len vdir AND 0xf = 0 \<and> nindir \<noteq> 0
        \<and> vr_lease ring (vd_addr vdir) (unat (vd_len vdir)) = Some vindir
        \<and> indir_chain m ring vindir nindir (0 # path)
        \<and> length (0 # path) \<le> unat (vr_size ring)
        \<and> vd_flags vp AND VRING_DESC_F_INDIRECT \<noteq> 0 \<longrightarrow>
        vq_popchain m ring (unat (vr_size ring)) = (- 1, [], None, pop_failed ring Indir_bad_nest)
        \<and> viona_tx env link m ring = (pop_failed ring Indir_bad_nest, Tx_pop_error))
     \<and> (vd_len vdir AND 0xf = 0 \<and> nindir \<noteq> 0
        \<and> vr_lease ring (vd_addr vdir) (unat (vd_len vdir)) = Some vindir
        \<and> indir_chain m ring vindir nindir (0 # path)
        \<and> length (0 # path) < unat (vr_size ring)
        \<and> vd_flags vp AND VRING_DESC_F_INDIRECT = 0 \<and> vd_len vp \<noteq> 0
        \<and> vr_lease ring (vd_addr vp) (unat (vd_len vp)) \<noteq> None
        \<and> vd_flags vp AND VRING_DESC_F_NEXT \<noteq> 0 \<and> nindir \<le> unat (vd_next vp) \<longrightarrow>
        vq_popchain m ring (unat (vr_size ring)) = (- 1, [], None, pop_failed ring Indir_bad_next)
        \<and> viona_tx env link m ring = (pop_failed ring Indir_bad_next, Tx_pop_error))
     \<and> vr_cur_aidx (pop_failed ring e) = vr_cur_aidx ring
     \<and> vr_events (pop_failed ring e) = vr_events ring
     \<and> vr_used_idx (pop_failed ring e) = vr_used_idx ring
     \<and> vr_used_ring (pop_failed ring e) = vr_used_ring ring
     \<and> rs_indir_bad_nest (vr_stats (pop_failed ring Indir_bad_nest)) =
         rs_indir_bad_nest (vr_stats ring) + 1"
proof -
  note pi = vq_popchain_indirect[OF posted head vdir, where m = m]
  have a: "vd_len vdir AND 0xf \<noteq> 0 \<or> nindir = 0 \<longrightarrow>
        vq_popchain m ring (unat (vr_size ring)) = (- 1, [], None, pop_failed ring Indir_bad_len)
        \<and> viona_tx env link m ring = (pop_failed ring Indir_bad_len, Tx_pop_error)"
  proof (intro impI)
    assume "vd_len vdir AND 0xf \<noteq> 0 \<or> nindir = 0"
    with nindir have "vd_len vdir AND 0xf \<noteq> 0 \<or> unat (vd_len vdir) div 16 = 0" by simp
    from pi(1)[OF this] viona_tx_pop_error[OF pi(1)[OF this]]
    show "vq_popchain m ring (unat (vr_size ring)) = (- 1, [], None, pop_failed ring Indir_bad_len)
        \<and> viona_tx env link m ring = (pop_failed ring Indir_bad_len, Tx_pop_error)"
      by simp
  qed
  have b: "vd_len vdir AND 0xf = 0 \<and> nindir \<noteq> 0
        \<and> vr_lease ring (vd_addr vdir) (unat (vd_len vdir)) = Some vindir
        \<and> indir_chain m ring vindir nindir (0 # path)
        \<and> length (0 # path) \<le> unat (vr_size ring)
        \<and> vd_flags vp AND VRING_DESC_F_INDIRECT \<noteq> 0 \<longrightarrow>
        vq_popchain m ring (unat (vr_size ring)) = (- 1, [], None, pop_failed ring Indir_bad_nest)
        \<and> viona_tx env link m ring = (pop_failed ring Indir_bad_nest, Tx_pop_error)"
  proof (intro impI, elim conjE)
    assume h: "vd_len vdir AND 0xf = 0" "nindir \<noteq> 0"
      "vr_lease ring (vd_addr vdir) (unat (vd_len vdir)) = Some vindir"
      "indir_chain m ring vindir nindir (0 # path)"
      "length (0 # path) \<le> unat (vr_size ring)"
      "vd_flags vp AND VRING_DESC_F_INDIRECT \<noteq> 0"
    have "indir_walk m (note_ndesc ring) vindir nindir (unat (vr_size ring)) 0 [] =
          Inl Indir_bad_nest"
      using h(4,5,6) last by (intro indir_walk_nest[where es = path]) simp_all
    then have "vq_popchain m ring (unat (vr_size ring)) =
          (- 1, [], None, pop_failed ring Indir_bad_nest)"
      using pi(2)[OF h(1) _ h(3)] h(2) nindir by simp
    then show "vq_popchain m ring (unat (vr_size ring)) =
          (- 1, [], None, pop_failed ring Indir_bad_nest)
        \<and> viona_tx env link m ring = (pop_failed ring Indir_bad_nest, Tx_pop_error)"
      using viona_tx_pop_error by blast
  qed
  have c: "vd_len vdir AND 0xf = 0 \<and> nindir \<noteq> 0
        \<and> vr_lease ring (vd_addr vdir) (unat (vd_len vdir)) = Some vindir
        \<and> indir_chain m ring vindir nindir (0 # path)
        \<and> length (0 # path) < unat (vr_size ring)
        \<and> vd_flags vp AND VRING_DESC_F_INDIRECT = 0 \<and> vd_len vp \<noteq> 0
        \<and> vr_lease ring (vd_addr vp) (unat (vd_len vp)) \<noteq> None
        \<and> vd_flags vp AND VRING_DESC_F_NEXT \<noteq> 0 \<and> nindir \<le> unat (vd_next vp) \<longrightarrow>
        vq_popchain m ring (unat (vr_size ring)) = (- 1, [], None, pop_failed ring Indir_bad_next)
        \<and> viona_tx env link m ring = (pop_failed ring Indir_bad_next, Tx_pop_error)"
  proof (intro impI, elim conjE)
    assume h: "vd_len vdir AND 0xf = 0" "nindir \<noteq> 0"
      "vr_lease ring (vd_addr vdir) (unat (vd_len vdir)) = Some vindir"
      "indir_chain m ring vindir nindir (0 # path)"
      "length (0 # path) < unat (vr_size ring)"
      "vd_flags vp AND VRING_DESC_F_INDIRECT = 0" "vd_len vp \<noteq> 0"
      "vr_lease ring (vd_addr vp) (unat (vd_len vp)) \<noteq> None"
      "vd_flags vp AND VRING_DESC_F_NEXT \<noteq> 0" "nindir \<le> unat (vd_next vp)"
    have "indir_walk m (note_ndesc ring) vindir nindir (unat (vr_size ring)) 0 [] =
          Inl Indir_bad_next"
      using h(4-10) last
      by (intro indir_walk_next[where es = path and vp = vp]) (simp_all add: viona_gpa2kva_def)
    then have "vq_popchain m ring (unat (vr_size ring)) =
          (- 1, [], None, pop_failed ring Indir_bad_next)"
      using pi(2)[OF h(1) _ h(3)] h(2) nindir by simp
    then show "vq_popchain m ring (unat (vr_size ring)) =
          (- 1, [], None, pop_failed ring Indir_bad_next)
        \<and> viona_tx env link m ring = (pop_failed ring Indir_bad_next, Tx_pop_error)"
      using viona_tx_pop_error by blast
  qed
  show ?thesis
    using a b c by (simp add: pop_failed_fields)
qed

lemma ringI_fields [simp]:
  "vr_avail_idx ringI = 1" "vr_cur_aidx ringI = 0" "vr_mask ringI = 3" "vr_size ringI = 4"
  "vr_avail_ring ringI = (\<lambda>_. 0)" "vr_lease ringI = lease0" "vr_events ringI = []"
  "vr_descr ringI =
     (\<lambda>_. \<lparr>vd_addr = 8192, vd_len = 32, vd_flags = VRING_DESC_F_INDIRECT, vd_next = 0\<rparr>)"
  "vr_stats ringI = stats0" "vr_txdesb ringI = None" "vr_used_idx ringI = 0"
  by (simp_all add: ringI_def)

lemma kmemN_table:
  "read_desc kmemN 8192 0 = \<lparr>vd_addr = 4096, vd_len = 64, vd_flags = 1, vd_next = 1\<rparr>"
  "read_desc kmemN 8192 (Suc 0) = \<lparr>vd_addr = 0, vd_len = 0, vd_flags = 4, vd_next = 0\<rparr>"
  by (simp_all add: read_desc_def kmemN_def kmemI_def)

lemma kmemI_table:
  "read_desc kmemI 8192 0 = \<lparr>vd_addr = 4096, vd_len = 64, vd_flags = 0, vd_next = 0\<rparr>"
  "read_desc kmemI 8192 (Suc 0) = \<lparr>vd_addr = 0, vd_len = 0, vd_flags = 4, vd_next = 0\<rparr>"
  by (simp_all add: read_desc_def kmemI_def)

theorem indirect_table_rejected_witness:
  "vq_popchain kmemN ringI 4 = (- 1, [], None, pop_failed ringI Indir_bad_nest)
   \<and> viona_tx txenv0 link0 kmemN ringI = (pop_failed ringI Indir_bad_nest, Tx_pop_error)
   \<and> vr_cur_aidx (pop_failed ringI Indir_bad_nest) = 0
   \<and> vr_events (pop_failed ringI Indir_bad_nest) = []
   \<and> rs_indir_bad_nest (vr_stats (pop_failed ringI Indir_bad_nest)) = 1"
proof -
  have p: "vr_avail_idx ringI \<noteq> vr_cur_aidx ringI"
    "vr_avail_ring ringI (unat (vr_cur_aidx ringI AND vr_mask ringI)) = 0"
    "unat (0 :: 16 word) < unat (vr_size ringI)"
    "vr_descr ringI (unat (0 :: 16 word)) =
       \<lparr>vd_addr = 8192, vd_len = 32, vd_flags = VRING_DESC_F_INDIRECT, vd_next = 0\<rparr>"
    "vd_flags \<lparr>vd_addr = 8192, vd_len = 32, vd_flags = VRING_DESC_F_INDIRECT, vd_next = 0\<rparr>
       AND VRING_DESC_F_INDIRECT \<noteq> 0"
    "(2 :: nat) = unat (vd_len \<lparr>vd_addr = 8192, vd_len = 32 :: 32 word,
        vd_flags = VRING_DESC_F_INDIRECT, vd_next = 0 :: 16 word\<rparr>) div 16"
    "\<lparr>vd_addr = 0, vd_len = 0, vd_flags = 4, vd_next = 0\<rparr> =
       read_desc kmemN 8192 (last (0 # [1]))"
    by (simp_all add: kmemN_table VRING_DESC_F_INDIRECT_def)
  note t = indirect_table_rejected[OF p, where env = txenv0 and link = link0
      and e = Indir_bad_nest]
  note n = t[THEN conjunct2, THEN conjunct1, rule_format]
  note f = t[THEN conjunct2, THEN conjunct2, THEN conjunct2]
  have c: "indir_chain kmemN ringI 8192 2 [0, 1]"
    by (simp add: kmemN_table viona_gpa2kva_def lease0_def VRING_DESC_F_INDIRECT_def
        VRING_DESC_F_NEXT_def)
  have "vq_popchain kmemN ringI (unat (vr_size ringI)) =
          (- 1, [], None, pop_failed ringI Indir_bad_nest)
        \<and> viona_tx txenv0 link0 kmemN ringI = (pop_failed ringI Indir_bad_nest, Tx_pop_error)"
    using c by (intro n) (simp add: lease0_def VRING_DESC_F_INDIRECT_def)
  with f show ?thesis by (simp add: stats0_def)
qed

text \<open>
  A table that holds an entry with INDIRECT set which the walk does not come to: the chain is
  parsed as one segment, sent, and completed.
\<close>

theorem indirect_table_rejected_counterexample:
  "vd_flags (vr_descr ringI 0) AND VRING_DESC_F_INDIRECT \<noteq> 0
   \<and> vd_flags (read_desc kmemI 8192 1) AND VRING_DESC_F_INDIRECT \<noteq> 0
   \<and> vq_popchain kmemI ringI 4 =
       (1, [\<lparr>iov_base = 4096, iov_len = 64\<rparr>], Some 0, ringI\<lparr>vr_cur_aidx := 1\<rparr>)
   \<and> rs_indir_bad_nest (vr_stats (fst (viona_tx txenv0 link0 kmemI ringI))) = 0
   \<and> (\<exists>f. snd (viona_tx txenv0 link0 kmemI ringI) = Tx_sent f)
   \<and> used_lens (vr_events (fst (viona_tx txenv0 link0 kmemI ringI))) = [64]"
proof -
  have w: "indir_walk kmemI ringI 8192 2 4 0 [] = Inr [\<lparr>iov_base = 4096, iov_len = 64\<rparr>]"
    by (subst indir_walk.simps)
       (simp add: kmemI_table viona_gpa2kva_def lease0_def VRING_DESC_F_INDIRECT_def
          VRING_DESC_F_NEXT_def)
  have pl: "popchain_loop kmemI ringI 4 0 [] = Inr [\<lparr>iov_base = 4096, iov_len = 64\<rparr>]"
    by (subst popchain_loop.simps)
       (simp add: w viona_gpa2kva_def lease0_def VRING_DESC_F_INDIRECT_def
          VRING_DESC_F_NEXT_def)
  have p: "vq_popchain kmemI ringI 4 =
       (1, [\<lparr>iov_base = 4096, iov_len = 64\<rparr>], Some 0, ringI\<lparr>vr_cur_aidx := 1\<rparr>)"
    by (simp add: vq_popchain_def note_ndesc_def pl)
  have tx: "viona_tx txenv0 link0 kmemI ringI =
     (viona_tx_done (ringI\<lparr>vr_cur_aidx := 1\<rparr>) 64 0,
      Tx_sent \<lparr>tf_desb = None, tf_buf = replicate 138 0, tf_hlen = 0, tf_cont = [],
               tf_lso_mss = None, tf_offload = Off_none\<rparr>)"
    by (simp add: viona_tx_def p cookie_of_def sizeof_virtio_net_hdr_def tx_claim_def
        txenv0_def desb_ref_incr_def tx_hook_def link0_def tx_finish_def tx_send_def
        VIRTIO_NET_F_CSUM_def)
  show ?thesis
    by (simp add: tx p kmemI_table VRING_DESC_F_INDIRECT_def viona_tx_done_def
        vq_pushchain_def used_store_def used_idx_publish_def viona_intr_ring_def stats0_def
        Let_def)
qed

end
